theory Spec2Isabelle
  imports Main "HOL-Library.Char_ord" "HOL-Library.List_Lexorder" "HOL-Library.Product_Lexorder"
    "HOL-Library.Option_ord" "HOL-Library.Multiset"
begin

section \<open>Data model (src/main.py, lines 37-71)\<close>

text \<open>
  A naive Python \<open>datetime\<close> is compared field by field: year, month, day, hour, minute,
  second, microsecond. The tuple with the lexicographic product order is that comparison.
\<close>

type_synonym datetime = "nat \<times> nat \<times> nat \<times> nat \<times> nat \<times> nat \<times> nat"


text \<open>
  \<open>datetime.isoformat()\<close> of a naive datetime: \<open>YYYY-MM-DDTHH:MM:SS\<close>, followed by
  \<open>.ffffff\<close> when the microsecond is not zero. \<open>pad n k\<close> is the \<open>n\<close> low decimal
  digits of \<open>k\<close>, which is \<open>%0nd\<close> for a field within its range.
\<close>

definition digit_char :: "nat \<Rightarrow> char" where
  "digit_char k = char_of (48 + k mod 10)"

fun pad :: "nat \<Rightarrow> nat \<Rightarrow> string" where
  "pad 0 k = []"
| "pad (Suc n) k = pad n (k div 10) @ [digit_char k]"

fun isoformat :: "datetime \<Rightarrow> string" where
  "isoformat (y, mo, d, h, mi, s, us) =
     pad 4 y @ ''-'' @ pad 2 mo @ ''-'' @ pad 2 d @ ''T'' @ pad 2 h @ '':'' @ pad 2 mi @ '':'' @ pad 2 s
     @ (if us = 0 then [] else ''.'' @ pad 6 us)"

record user =
  user_id :: nat
  user_chat_id :: string
  email :: "string option"
  phone :: "string option"

record thread =
  thread_id :: nat
  thread_user_id :: nat
  thread_created_at :: datetime

record message =
  message_id :: nat
  message_thread_id :: nat
  sender :: string
  content :: string
  timestamp :: datetime

record openai_thread =
  oat_id :: nat
  oat_user_id :: nat
  openai_thread_id :: string
  oat_created_at :: datetime

text \<open>The four tables, each in insertion order.\<close>

record db =
  users :: "user list"
  threads :: "thread list"
  messages :: "message list"
  openai_threads :: "openai_thread list"

text \<open>An autoincrement primary key: one more than every key in the table.\<close>

definition fresh_id :: "nat list \<Rightarrow> nat" where
  "fresh_id ids = Suc (fold max ids 0)"

text \<open>\<open>select(User).where(User.chat_id == chat_id)\<close>, then \<open>.first()\<close>.\<close>

definition find_user :: "db \<Rightarrow> string \<Rightarrow> user option" where
  "find_user d chat_id = find (\<lambda>u. user_chat_id u = chat_id) (users d)"

text \<open>
  \<open>select(Thread).where(Thread.user_id == user.id).order_by(Thread.created_at.desc())\<close>,
  then \<open>.first()\<close>: a thread of the user with the greatest creation time. SQL leaves the
  order of equal creation times open; the model takes the one inserted last.
\<close>

definition latest_thread :: "db \<Rightarrow> nat \<Rightarrow> thread option" where
  "latest_thread d uid =
     (case rev (sort_key thread_created_at (filter (\<lambda>t. thread_user_id t = uid) (threads d))) of
        [] \<Rightarrow> None
      | t # _ \<Rightarrow> Some t)"

text \<open>
  \<open>select(Message).where(Message.thread_id == thread.id).order_by(Message.timestamp.asc())\<close>,
  then \<open>.all()\<close>. Equal timestamps stay in insertion order.
\<close>

definition thread_messages :: "db \<Rightarrow> nat \<Rightarrow> message list" where
  "thread_messages d tid = sort_key timestamp (filter (\<lambda>m. message_thread_id m = tid) (messages d))"

text \<open>
  \<open>db.add(Message(thread_id=..., sender=..., content=...))\<close> and the commit. The column
  default stamps the row with the clock reading \<open>ts\<close> (\<open>utcnow() + 1h\<close>), which the caller
  of the model supplies.
\<close>

definition add_message :: "nat \<Rightarrow> string \<Rightarrow> string \<Rightarrow> datetime \<Rightarrow> db \<Rightarrow> db" where
  "add_message tid role txt ts d =
     d\<lparr>messages := messages d @
        [\<lparr>message_id = fresh_id (map message_id (messages d)), message_thread_id = tid,
          sender = role, content = txt, timestamp = ts\<rparr>]\<rparr>"

definition add_user :: "string \<Rightarrow> db \<Rightarrow> nat \<times> db" where
  "add_user chat_id d =
     (let uid = fresh_id (map user_id (users d))
      in (uid, d\<lparr>users := users d @
            [\<lparr>user_id = uid, user_chat_id = chat_id, email = None, phone = None\<rparr>]\<rparr>))"

definition add_thread :: "nat \<Rightarrow> datetime \<Rightarrow> db \<Rightarrow> nat \<times> db" where
  "add_thread uid ts d =
     (let tid = fresh_id (map thread_id (threads d))
      in (tid, d\<lparr>threads := threads d @
            [\<lparr>thread_id = tid, thread_user_id = uid, thread_created_at = ts\<rparr>]\<rparr>))"

section \<open>Process state and effects\<close>

text \<open>
  A WebSocket object is known by its identity. A frame is the dictionary handed to
  \<open>json.dumps\<close>, with its keys in the order of the source.
\<close>

type_synonym websocket = nat
type_synonym frame = "(string \<times> string) list"

text \<open>
  The effects a handler has on the outside, in the order they happen. Socket sends and
  database commits are taken to succeed; calls to the AI provider may fail.
\<close>

datatype event =
    Accept websocket
  | Close websocket nat
  | Persist string string
  | UserSend websocket frame
  | ManagerSend websocket frame
  | Sleep nat
  | RunsList string
  | MessagesCreate string string
  | SubmitToolOutputs string string "(string \<times> frame) list"
  | CreateThread string
  | CreateRun string

text \<open>
  The module-level state of main.py: \<open>user_manager.active_connections\<close> (a dict),
  \<open>manager_manager.active_connections\<close> (a list), \<open>active_manager_chats\<close> (a set) and
  the database behind \<open>async_session\<close>; \<open>trace\<close> collects the effects.
\<close>

record world =
  user_connections :: "string \<rightharpoonup> websocket"
  manager_connections :: "websocket list"
  active_manager_chats :: "string set"
  database :: db
  trace :: "event list"

definition emit :: "event list \<Rightarrow> world \<Rightarrow> world" where
  "emit es w = w\<lparr>trace := trace w @ es\<rparr>"

section \<open>UserConnectionManager (src/main.py, lines 93-107)\<close>

definition user_connect :: "string \<Rightarrow> websocket \<Rightarrow> world \<Rightarrow> world" where
  "user_connect chat_id ws w =
     (emit [Accept ws] w)\<lparr>user_connections := (user_connections w)(chat_id \<mapsto> ws)\<rparr>"

definition user_disconnect :: "string \<Rightarrow> world \<Rightarrow> world" where
  "user_disconnect chat_id w =
     (if chat_id \<in> dom (user_connections w)
      then w\<lparr>user_connections := (user_connections w)(chat_id := None)\<rparr>
      else w)"

definition send_personal_message :: "frame \<Rightarrow> string \<Rightarrow> world \<Rightarrow> world" where
  "send_personal_message msg chat_id w =
     (case user_connections w chat_id of
        Some ws \<Rightarrow> emit [UserSend ws msg] w
      | None \<Rightarrow> w)"

section \<open>ManagerConnectionManager (src/main.py, lines 255-271)\<close>

definition manager_connect :: "websocket \<Rightarrow> world \<Rightarrow> world" where
  "manager_connect ws w =
     (emit [Accept ws] w)\<lparr>manager_connections := manager_connections w @ [ws]\<rparr>"

text \<open>\<open>list.remove\<close> deletes the first occurrence.\<close>

definition manager_disconnect :: "websocket \<Rightarrow> world \<Rightarrow> world" where
  "manager_disconnect ws w =
     (if ws \<in> set (manager_connections w)
      then w\<lparr>manager_connections := remove1 ws (manager_connections w)\<rparr>
      else w)"

definition broadcast :: "frame \<Rightarrow> world \<Rightarrow> world" where
  "broadcast msg w = emit (map (\<lambda>ws. ManagerSend ws msg) (manager_connections w)) w"

section \<open>The user endpoint: opening and closing (src/main.py, lines 111-149, 248-252)\<close>

text \<open>
  The query parameter \<open>chat_id\<close> is \<open>None\<close> when absent; \<open>not chat_id\<close> holds for
  \<open>None\<close> and for the empty string.
\<close>

text \<open>The local variables a running user handler keeps: its socket, chat id, user and thread.\<close>

record handler =
  h_websocket :: websocket
  h_chat_id :: string
  h_user_id :: nat
  h_thread_id :: nat

definition websocket_endpoint_open ::
  "websocket \<Rightarrow> string option \<Rightarrow> datetime \<Rightarrow> world \<Rightarrow> handler option \<times> world" where
  "websocket_endpoint_open ws q now w =
     (case q of
        None \<Rightarrow> (None, emit [Close ws 1008] w)
      | Some chat_id \<Rightarrow>
          if chat_id = [] then (None, emit [Close ws 1008] w)
          else
            let w1 = user_connect chat_id ws w;
                d = database w1
            in (case find_user d chat_id of
                  None \<Rightarrow>
                    (let (uid, d1) = add_user chat_id d;
                         (tid, d2) = add_thread uid now d1
                     in (Some \<lparr>h_websocket = ws, h_chat_id = chat_id, h_user_id = uid,
                                h_thread_id = tid\<rparr>,
                         w1\<lparr>database := d2\<rparr>))
                | Some u \<Rightarrow>
                    (case latest_thread d (user_id u) of
                       None \<Rightarrow>
                         (let (tid, d1) = add_thread (user_id u) now d
                          in (Some \<lparr>h_websocket = ws, h_chat_id = chat_id, h_user_id = user_id u,
                                     h_thread_id = tid\<rparr>,
                              w1\<lparr>database := d1\<rparr>))
                     | Some t \<Rightarrow>
                         (Some \<lparr>h_websocket = ws, h_chat_id = chat_id, h_user_id = user_id u,
                                 h_thread_id = thread_id t\<rparr>, w1))))"

text \<open>
  Both exception handlers of the receive loop (\<open>WebSocketDisconnect\<close> and any other
  exception) call \<open>user_manager.disconnect(chat_id)\<close>: the handler passes its chat id, not
  its socket.
\<close>

definition websocket_endpoint_close :: "handler \<Rightarrow> world \<Rightarrow> world" where
  "websocket_endpoint_close h w = user_disconnect (h_chat_id h) w"

definition empty_db :: db where
  "empty_db = \<lparr>users = [], threads = [], messages = [], openai_threads = []\<rparr>"

definition empty_world :: world where
  "empty_world = \<lparr>user_connections = Map.empty, manager_connections = [],
     active_manager_chats = {}, database = empty_db, trace = []\<rparr>"

section \<open>The manager-send endpoint (src/main.py, lines 289-333)\<close>

text \<open>
  The values of the optional fields \<open>action\<close> and \<open>managerStatus\<close>: any JSON value
  (numbers are integers here). \<open>payload.get\<close> gives \<open>None\<close> for an absent key and for
  JSON \<open>null\<close> alike.
\<close>

datatype json = JBool bool | JNum int | JStr string | JArr "json list" | JObj "(string \<times> json) list"

text \<open>Python truthiness, as \<open>if x\<close> and \<open>not x\<close> see it.\<close>

fun truthy :: "json option \<Rightarrow> bool" where
  "truthy None = False"
| "truthy (Some (JBool b)) = b"
| "truthy (Some (JNum n)) = (n \<noteq> 0)"
| "truthy (Some (JStr s)) = (s \<noteq> [])"
| "truthy (Some (JArr xs)) = (xs \<noteq> [])"
| "truthy (Some (JObj kvs)) = (kvs \<noteq> [])"

text \<open>
  The request body. \<open>chat_id\<close> and \<open>message\<close> are strings when present, as the
  endpoint's callers send them.
\<close>

record manager_payload =
  p_chat_id :: "string option"
  p_message :: "string option"
  p_action :: "json option"
  p_manager_status :: "json option"

text \<open>
  What an HTTP endpoint gives back: a raised \<open>HTTPException\<close> (status code and detail),
  or a body served with status 200.
\<close>

datatype 'a response = HTTPException nat string | JSONResponse 'a

definition persist :: "nat \<Rightarrow> string \<Rightarrow> string \<Rightarrow> datetime \<Rightarrow> world \<Rightarrow> world" where
  "persist tid role txt ts w =
     emit [Persist role txt] (w\<lparr>database := add_message tid role txt ts (database w)\<rparr>)"

definition bad_request :: "frame response" where
  "bad_request = HTTPException 400 ''chat_id and message are required''"

definition send_manager_message :: "manager_payload \<Rightarrow> datetime \<Rightarrow> world \<Rightarrow> frame response \<times> world" where
  "send_manager_message payload now w =
     (case p_chat_id payload of
        None \<Rightarrow> (bad_request, w)
      | Some chat_id \<Rightarrow>
     (case p_message payload of
        None \<Rightarrow> (bad_request, w)
      | Some msg \<Rightarrow>
          if chat_id = [] \<or> msg = [] then (bad_request, w)
          else
            let action = p_action payload;
                manager_status = p_manager_status payload;
                w1 = (if manager_status \<noteq> None
                      then (if truthy manager_status
                            then w\<lparr>active_manager_chats := insert chat_id (active_manager_chats w)\<rparr>
                            else w\<lparr>active_manager_chats := active_manager_chats w - {chat_id}\<rparr>)
                      else w)
            in (case find_user (database w1) chat_id of
                  None \<Rightarrow> (HTTPException 404 ''User not found'', w1)
                | Some u \<Rightarrow>
               (case latest_thread (database w1) (user_id u) of
                  None \<Rightarrow> (HTTPException 404 ''Thread not found'', w1)
                | Some t \<Rightarrow>
                    let w2 = persist (thread_id t) (if action = None then ''manager'' else ''action'')
                               msg now w1;
                        response_payload =
                          (if \<not> truthy action
                           then [(''type'', ''message''), (''message'', msg), (''sender'', ''manager'')]
                           else [(''type'', ''message''), (''message'', msg), (''sender'', ''action'')]);
                        w3 = send_personal_message response_payload chat_id w2;
                        w4 = broadcast
                               [(''chat_id'', chat_id), (''type'', ''message''), (''message'', msg),
                                (''sender'', if action = None then ''manager '' else ''action'')] w3
                    in (JSONResponse [(''status'', ''ok'')], w4)))))"

section \<open>The history endpoint (src/main.py, lines 336-355)\<close>

text \<open>One entry of the returned history: the keys \<open>sender\<close>, \<open>text\<close> and \<open>timestamp\<close>.\<close>

record history_entry =
  e_sender :: string
  e_text :: string
  e_timestamp :: string

definition history_of :: "message list \<Rightarrow> history_entry list" where
  "history_of ms =
     map (\<lambda>m. \<lparr>e_sender = sender m, e_text = content m, e_timestamp = isoformat (timestamp m)\<rparr>) ms"

text \<open>The endpoint raises nothing: both early exits return the empty list, served with status 200.\<close>

definition get_chat_history :: "string \<Rightarrow> db \<Rightarrow> history_entry list response" where
  "get_chat_history chat_id d =
     (case find_user d chat_id of
        None \<Rightarrow> JSONResponse []
      | Some u \<Rightarrow>
          (case latest_thread d (user_id u) of
             None \<Rightarrow> JSONResponse []
           | Some t \<Rightarrow> JSONResponse (history_of (thread_messages d (thread_id t)))))"

section \<open>The AI responder (src/ai_handler.py)\<close>

text \<open>
  An exception, with the text \<open>str(e)\<close> gives. \<open>BadRequestError\<close> is the one class the
  responder tells apart; every other exception (\<open>OpenAIError\<close> or not) is re-raised as it is.
\<close>

datatype exn = BadRequestError string | OtherError string

fun str :: "exn \<Rightarrow> string" where
  "str (BadRequestError s) = s"
| "str (OtherError s) = s"

record run =
  run_id :: string
  run_status :: string

text \<open>A \<open>ToolOutput\<close>: the tool call id and the dictionary dumped into \<open>output\<close>.\<close>

type_synonym tool_output = "string \<times> frame"

text \<open>
  The provider is outside the program: a state \<open>'p\<close> of its own and one transition per API
  call, returning the call's result or the exception it raises. \<open>passing\<close> is what a sleep of
  so many seconds does to it. \<open>create_run\<close> stands for the whole of the source's
  \<open>create_run\<close>: the run polled to its end and the reply text with the citation markup
  removed, or the exception raised on the way.
\<close>

record 'p provider =
  threads_create :: "string \<Rightarrow> 'p \<Rightarrow> (exn + string) \<times> 'p"
  runs_list :: "string \<Rightarrow> 'p \<Rightarrow> (exn + run list) \<times> 'p"
  messages_create :: "string \<Rightarrow> string \<Rightarrow> 'p \<Rightarrow> (exn + unit) \<times> 'p"
  submit_tool_outputs :: "string \<Rightarrow> string \<Rightarrow> tool_output list \<Rightarrow> 'p \<Rightarrow> (exn + unit) \<times> 'p"
  create_run :: "string \<Rightarrow> 'p \<Rightarrow> (exn + string) \<times> 'p"
  passing :: "nat \<Rightarrow> 'p \<Rightarrow> 'p"

text \<open>\<open>sub in s\<close> on Python strings.\<close>

fun contains :: "string \<Rightarrow> string \<Rightarrow> bool" where
  "contains sub [] = (sub = [])"
| "contains sub (c # cs) = (take (length sub) (c # cs) = sub \<or> contains sub cs)"

definition create_thread ::
  "'p provider \<Rightarrow> string \<Rightarrow> 'p \<Rightarrow> (exn + string) \<times> 'p \<times> event list" where
  "create_thread api question p =
     (case threads_create api question p of (r, p') \<Rightarrow> (r, p', [CreateThread question]))"

definition in_progress :: "run list \<Rightarrow> run list" where
  "in_progress runs = filter (\<lambda>r. run_status r = ''in_progress'') runs"

text \<open>
  The first loop of \<open>add_user_message\<close> (lines 46-52): list the runs until none is in
  progress. It leaves through \<open>break\<close> with the last \<open>active_runs\<close>, or through an
  exception of the listing; it may also poll forever, which is the value \<open>None\<close>.
\<close>

partial_function (option) wait_active_runs ::
  "'p provider \<Rightarrow> string \<Rightarrow> 'p \<Rightarrow> event list \<Rightarrow> ((exn + run list) \<times> 'p \<times> event list) option" where
  "wait_active_runs api tid p tr =
     (case runs_list api tid p of
        (Inl e, p') \<Rightarrow> Some (Inl e, p', tr @ [RunsList tid])
      | (Inr runs, p') \<Rightarrow>
          let active_runs = in_progress runs
          in if active_runs = [] then Some (Inr active_runs, p', tr @ [RunsList tid])
             else wait_active_runs api tid (passing api 1 p') (tr @ [RunsList tid, Sleep 1]))"

declare wait_active_runs.simps [code]

text \<open>The nested \<open>check_active_runs\<close> (lines 36-43): the same polling, returning \<open>True\<close>.\<close>

partial_function (option) check_active_runs ::
  "'p provider \<Rightarrow> string \<Rightarrow> 'p \<Rightarrow> event list \<Rightarrow> ((exn + bool) \<times> 'p \<times> event list) option" where
  "check_active_runs api tid p tr =
     (case runs_list api tid p of
        (Inl e, p') \<Rightarrow> Some (Inl e, p', tr @ [RunsList tid])
      | (Inr runs, p') \<Rightarrow>
          let active_runs = in_progress runs
          in if active_runs = [] then Some (Inr True, p', tr @ [RunsList tid])
             else check_active_runs api tid (passing api 1 p') (tr @ [RunsList tid, Sleep 1]))"

declare check_active_runs.simps [code]

text \<open>
  The attempts loop (lines 54-70). \<open>Inr None\<close>: the message went through and the function
  returns. \<open>Inr (Some attempt)\<close>: the loop ran out with this count. \<open>Inl e\<close>: raised.
\<close>

function send_attempts ::
  "'p provider \<Rightarrow> string \<Rightarrow> string \<Rightarrow> nat \<Rightarrow> nat \<Rightarrow> 'p \<Rightarrow> event list
     \<Rightarrow> (exn + nat option) \<times> 'p \<times> event list" where
  "send_attempts api tid user_message max_attempts attempt p tr =
     (if attempt < max_attempts then
        (case messages_create api tid user_message p of
           (Inr _, p') \<Rightarrow> (Inr None, p', tr @ [MessagesCreate tid user_message])
         | (Inl (BadRequestError s), p') \<Rightarrow>
             if contains ''Can't add messages to'' s
             then send_attempts api tid user_message max_attempts (attempt + 1) (passing api 1 p')
                    (tr @ [MessagesCreate tid user_message, Sleep 1])
             else (Inl (BadRequestError s), p', tr @ [MessagesCreate tid user_message])
         | (Inl e, p') \<Rightarrow> (Inl e, p', tr @ [MessagesCreate tid user_message]))
      else (Inr (Some attempt), p, tr))"
  by pat_completeness auto
termination
  by (relation "measure (\<lambda>(api, tid, user_message, max_attempts, attempt, p, tr). max_attempts - attempt)")
     auto

text \<open>
  The forced completion (lines 74-89): for each run of \<open>active_runs\<close>, append its tool
  output to the one growing list and submit that list for the run.
\<close>

fun force_complete ::
  "'p provider \<Rightarrow> string \<Rightarrow> run list \<Rightarrow> tool_output list \<Rightarrow> 'p \<Rightarrow> event list
     \<Rightarrow> (exn + unit) \<times> 'p \<times> event list" where
  "force_complete api tid [] tool_outputs p tr = (Inr (), p, tr)"
| "force_complete api tid (r # rs) tool_outputs p tr =
     (let tool_outputs' = tool_outputs @ [(run_id r, [(''result'', ''success'')])]
      in case submit_tool_outputs api tid (run_id r) tool_outputs' p of
           (Inl e, p') \<Rightarrow> (Inl e, p', tr @ [SubmitToolOutputs tid (run_id r) tool_outputs'])
         | (Inr _, p') \<Rightarrow>
             force_complete api tid rs tool_outputs' p'
               (tr @ [SubmitToolOutputs tid (run_id r) tool_outputs']))"

text \<open>
  \<open>add_user_message\<close> (lines 32-107). Both outer handlers log and re-raise, so an
  exception leaves the function as it was raised. \<open>None\<close>: one of the polling loops never
  ends.
\<close>

definition add_user_message ::
  "'p provider \<Rightarrow> string \<Rightarrow> string \<Rightarrow> 'p \<Rightarrow> ((exn + unit) \<times> 'p \<times> event list) option" where
  "add_user_message api tid user_message p =
     (let max_attempts = 5; attempt = 0
      in case wait_active_runs api tid p [] of
           None \<Rightarrow> None
         | Some (Inl e, p1, tr1) \<Rightarrow> Some (Inl e, p1, tr1)
         | Some (Inr active_runs, p1, tr1) \<Rightarrow>
             (case send_attempts api tid user_message max_attempts attempt p1 tr1 of
                (Inl e, p2, tr2) \<Rightarrow> Some (Inl e, p2, tr2)
              | (Inr None, p2, tr2) \<Rightarrow> Some (Inr (), p2, tr2)
              | (Inr (Some attempt'), p2, tr2) \<Rightarrow>
                  if attempt' \<ge> max_attempts then
                    (case force_complete api tid active_runs [] p2 tr2 of
                       (Inl e, p3, tr3) \<Rightarrow> Some (Inl e, p3, tr3)
                     | (Inr _, p3, tr3) \<Rightarrow>
                         (case check_active_runs api tid p3 tr3 of
                            None \<Rightarrow> None
                          | Some (Inl e, p4, tr4) \<Rightarrow> Some (Inl e, p4, tr4)
                          | Some (Inr settled, p4, tr4) \<Rightarrow>
                              if settled then
                                (case messages_create api tid user_message p4 of
                                   (Inl e, p5) \<Rightarrow>
                                     Some (Inl e, p5, tr4 @ [MessagesCreate tid user_message])
                                 | (Inr _, p5) \<Rightarrow>
                                     Some (Inr (), p5, tr4 @ [MessagesCreate tid user_message]))
                              else Some (Inr (), p4, tr4)))
                  else Some (Inr (), p2, tr2)))"

section \<open>The user endpoint: one received message (src/main.py, lines 153-244)\<close>

text \<open>\<open>OPENAI_KEY\<close> and \<open>ASSISTANT_ID\<close> as \<open>os.getenv\<close> returns them.\<close>

record config =
  openai_key :: "string option"
  assistant_id :: "string option"

text \<open>Python truthiness of an optional string: \<open>None\<close> and the empty string are false.\<close>

fun truthy_str :: "string option \<Rightarrow> bool" where
  "truthy_str None = False"
| "truthy_str (Some s) = (s \<noteq> [])"

definition ai_configured :: "config \<Rightarrow> bool" where
  "ai_configured cfg = (truthy_str (openai_key cfg) \<and> truthy_str (assistant_id cfg))"

text \<open>The clock readings that stamp the rows one message can insert.\<close>

record stamps =
  at_user_message :: datetime
  at_openai_thread :: datetime
  at_bot_message :: datetime

definition find_openai_thread :: "db \<Rightarrow> nat \<Rightarrow> openai_thread option" where
  "find_openai_thread d uid = find (\<lambda>t. oat_user_id t = uid) (openai_threads d)"

definition add_openai_thread :: "nat \<Rightarrow> string \<Rightarrow> datetime \<Rightarrow> db \<Rightarrow> db" where
  "add_openai_thread uid oid ts d =
     d\<lparr>openai_threads := openai_threads d @
        [\<lparr>oat_id = fresh_id (map oat_id (openai_threads d)), oat_user_id = uid,
          openai_thread_id = oid, oat_created_at = ts\<rparr>]\<rparr>"

text \<open>Lines 209-222 and 231-244: the reply goes to the user's socket, then to the managers.\<close>

definition deliver_bot :: "string \<Rightarrow> string \<Rightarrow> world \<Rightarrow> world" where
  "deliver_bot chat_id bot_response w =
     broadcast [(''chat_id'', chat_id), (''type'', ''message''), (''message'', bot_response),
                (''sender'', ''bot'')]
       (send_personal_message
          [(''type'', ''message''), (''message'', bot_response), (''sender'', ''bot'')] chat_id w)"

text \<open>The handler of line 205: the exception becomes the text of the reply, which is not stored.\<close>

definition openai_error :: "handler \<Rightarrow> exn \<Rightarrow> world \<Rightarrow> world" where
  "openai_error h e w = deliver_bot (h_chat_id h) (''Openai error: '' @ str e @ ''.'') w"

text \<open>Lines 194-204 and what follows: the run, the stored reply, the delivery.\<close>

definition run_turn :: "'p provider \<Rightarrow> handler \<Rightarrow> string \<Rightarrow> stamps \<Rightarrow> 'p \<Rightarrow> world \<Rightarrow> world \<times> 'p" where
  "run_turn api h oid st p w =
     (case create_run api oid p of
        (Inl e, p') \<Rightarrow> (openai_error h e (emit [CreateRun oid] w), p')
      | (Inr bot_response, p') \<Rightarrow>
          (deliver_bot (h_chat_id h) bot_response
             (persist (h_thread_id h) ''bot'' bot_response (at_bot_message st)
                (emit [CreateRun oid] w)), p'))"

text \<open>Lines 175-222: the branch taken when the AI is configured.\<close>

definition ai_turn ::
  "'p provider \<Rightarrow> handler \<Rightarrow> string \<Rightarrow> stamps \<Rightarrow> 'p \<Rightarrow> world \<Rightarrow> (world \<times> 'p) option" where
  "ai_turn api h message_text st p w =
     (case find_openai_thread (database w) (h_user_id h) of
        None \<Rightarrow>
          (case create_thread api message_text p of
             (Inl e, p1, tr1) \<Rightarrow> Some (openai_error h e (emit tr1 w), p1)
           | (Inr oid, p1, tr1) \<Rightarrow>
               Some (run_turn api h oid st p1
                 ((emit tr1 w)\<lparr>database :=
                    add_openai_thread (h_user_id h) oid (at_openai_thread st) (database w)\<rparr>)))
      | Some t \<Rightarrow>
          (case add_user_message api (openai_thread_id t) message_text p of
             None \<Rightarrow> None
           | Some (Inl e, p1, tr1) \<Rightarrow> Some (openai_error h e (emit tr1 w), p1)
           | Some (Inr _, p1, tr1) \<Rightarrow>
               Some (run_turn api h (openai_thread_id t) st p1 (emit tr1 w))))"

text \<open>Lines 224-244: the branch taken when it is not.\<close>

definition echo_turn :: "handler \<Rightarrow> string \<Rightarrow> stamps \<Rightarrow> world \<Rightarrow> world" where
  "echo_turn h message_text st w =
     (let bot_response = ''Bot echo: '' @ message_text
      in deliver_bot (h_chat_id h) bot_response
           (persist (h_thread_id h) ''bot'' bot_response (at_bot_message st) (emit [Sleep 4] w)))"

text \<open>
  One pass of the receive loop. \<open>inbound\<close> is the field \<open>message\<close> of the parsed frame
  (a string when present); \<open>payload.get("message", "")\<close> makes an absent one empty.
\<close>

definition websocket_endpoint_message ::
  "config \<Rightarrow> 'p provider \<Rightarrow> handler \<Rightarrow> string option \<Rightarrow> stamps \<Rightarrow> 'p \<Rightarrow> world
     \<Rightarrow> (world \<times> 'p) option" where
  "websocket_endpoint_message cfg api h inbound st p w =
     (let message_text = (case inbound of None \<Rightarrow> [] | Some s \<Rightarrow> s);
          w1 = persist (h_thread_id h) ''user'' message_text (at_user_message st) w;
          w2 = broadcast [(''chat_id'', h_chat_id h), (''type'', ''message''),
                          (''message'', message_text), (''sender'', ''user'')] w1
      in if h_chat_id h \<notin> active_manager_chats w2 then
           (if ai_configured cfg then ai_turn api h message_text st p w2
            else Some (echo_turn h message_text st w2, p))
         else Some (w2, p))"

section \<open>The manager listing (src/main.py, lines 357-381)\<close>













section \<open>Observations on traces and responses\<close>

definition is_client_error :: "'a response \<Rightarrow> bool" where
  "is_client_error r =
     (case r of HTTPException code _ \<Rightarrow> 400 \<le> code \<and> code < 500 | JSONResponse _ \<Rightarrow> False)"

fun is_submit :: "event \<Rightarrow> bool" where
  "is_submit (SubmitToolOutputs _ _ _) = True"
| "is_submit _ = False"



definition polling :: "string \<Rightarrow> event list \<Rightarrow> bool" where
  "polling tid ev =
     (ev \<noteq> [] \<and> hd ev = RunsList tid \<and> (\<forall>e\<in>set ev. e = RunsList tid \<or> e = Sleep 1))"

definition appending :: "string \<Rightarrow> string \<Rightarrow> event list \<Rightarrow> bool" where
  "appending tid um ev = (\<forall>e\<in>set ev. e = MessagesCreate tid um \<or> e = Sleep 1)"

text \<open>
  The state after the first two steps of the receive loop: the user's message stored
  and shown to every manager.
\<close>

definition received :: "handler \<Rightarrow> string option \<Rightarrow> stamps \<Rightarrow> world \<Rightarrow> world" where
  "received h inbound st w =
     (let message_text = (case inbound of None \<Rightarrow> [] | Some s \<Rightarrow> s)
      in w\<lparr>database :=
             add_message (h_thread_id h) ''user'' message_text (at_user_message st) (database w),
           trace := trace w @ Persist ''user'' message_text #
             map (\<lambda>ws. ManagerSend ws [(''chat_id'', h_chat_id h), (''type'', ''message''),
                                         (''message'', message_text), (''sender'', ''user'')])
                 (manager_connections w)\<rparr>)"

text \<open>The state after a whole echo turn for the text \<open>t\<close>, written out.\<close>

definition echo_reply_world :: "handler \<Rightarrow> string \<Rightarrow> stamps \<Rightarrow> world \<Rightarrow> world" where
  "echo_reply_world h t st w =
     w\<lparr>database :=
         add_message (h_thread_id h) ''bot'' (''Bot echo: '' @ t) (at_bot_message st)
           (add_message (h_thread_id h) ''user'' t (at_user_message st) (database w)),
       trace := trace w
         @ [Persist ''user'' t]
         @ map (\<lambda>ws. ManagerSend ws [(''chat_id'', h_chat_id h), (''type'', ''message''),
                                     (''message'', t), (''sender'', ''user'')])
               (manager_connections w)
         @ [Sleep 4, Persist ''bot'' (''Bot echo: '' @ t)]
         @ (case user_connections w (h_chat_id h) of
              None \<Rightarrow> []
            | Some ws \<Rightarrow> [UserSend ws [(''type'', ''message''), (''message'', ''Bot echo: '' @ t),
                                       (''sender'', ''bot'')]])
         @ map (\<lambda>ws. ManagerSend ws [(''chat_id'', h_chat_id h), (''type'', ''message''),
                                     (''message'', ''Bot echo: '' @ t), (''sender'', ''bot'')])
               (manager_connections w)\<rparr>"

text \<open>
  What a reply adds to the trace after the provider's calls or the pause: the frame for
  the socket registered for the identity, when there is one, and the frame for every
  manager.
\<close>

definition bot_frames :: "string \<Rightarrow> string \<Rightarrow> world \<Rightarrow> event list" where
  "bot_frames chat_id bot_response w =
     (case user_connections w chat_id of
        None \<Rightarrow> []
      | Some ws \<Rightarrow> [UserSend ws [(''type'', ''message''), (''message'', bot_response),
                                 (''sender'', ''bot'')]])
     @ map (\<lambda>ws. ManagerSend ws [(''chat_id'', chat_id), (''type'', ''message''),
                                 (''message'', bot_response), (''sender'', ''bot'')])
           (manager_connections w)"

text \<open>
  The state after a reply, written out: \<open>calls\<close> are the provider's calls or the pause
  that came first, \<open>outcome\<close> is the answer or the exception. An answer is stored and
  delivered; an exception is delivered as the text \<open>Openai error: ...\<close> and not stored.
\<close>

definition replied :: "handler \<Rightarrow> stamps \<Rightarrow> event list \<Rightarrow> exn + string \<Rightarrow> world \<Rightarrow> world" where
  "replied h st calls outcome w =
     (case outcome of
        Inl e \<Rightarrow>
          w\<lparr>trace := trace w @ calls
                 @ bot_frames (h_chat_id h) (''Openai error: '' @ str e @ ''.'') w\<rparr>
      | Inr bot_response \<Rightarrow>
          w\<lparr>database := add_message (h_thread_id h) ''bot'' bot_response (at_bot_message st)
                          (database w),
            trace := trace w @ calls @ Persist ''bot'' bot_response
                 # bot_frames (h_chat_id h) bot_response w\<rparr>)"

section \<open>Handlers running side by side (src/main.py, lines 151-244 and 289-333)\<close>

text \<open>
  Every connection runs its own receive loop (lines 151-244) as a coroutine of one event
  loop: a handler keeps the processor until it awaits, and the other handlers run
  meanwhile. One pass of the loop is cut here in two. The first half (lines 153-173)
  takes the next frame, stores the user's message, shows it to the managers and reads the
  handoff set. The second half (lines 175-244) produces the reply; it starts with an
  await (the lookup of line 178 and the provider's calls, or the pause of line 224), so
  a handler that has a reply to give is suspended between the two halves, and the rest
  of its pass runs when it is resumed. Nothing else of a pass is interleaved: each half
  is one step.
\<close>

definition pass_begin :: "handler \<Rightarrow> string option \<Rightarrow> stamps \<Rightarrow> world \<Rightarrow> world \<times> string \<times> bool" where
  "pass_begin h inbound st w =
     (let message_text = (case inbound of None \<Rightarrow> [] | Some s \<Rightarrow> s);
          w1 = persist (h_thread_id h) ''user'' message_text (at_user_message st) w;
          w2 = broadcast [(''chat_id'', h_chat_id h), (''type'', ''message''),
                          (''message'', message_text), (''sender'', ''user'')] w1
      in (w2, message_text, h_chat_id h \<notin> active_manager_chats w2))"

definition pass_end ::
  "config \<Rightarrow> 'p provider \<Rightarrow> handler \<Rightarrow> string \<Rightarrow> stamps \<Rightarrow> 'p \<Rightarrow> world \<Rightarrow> (world \<times> 'p) option" where
  "pass_end cfg api h message_text st p w2 =
     (if ai_configured cfg then ai_turn api h message_text st p w2
      else Some (echo_turn h message_text st w2, p))"

text \<open>
  A running handler: what \<open>websocket_endpoint\<close> holds in its local variables, the frames
  its socket has still to deliver (each with the clock readings of its pass), and, while
  it is suspended before its reply, the text it is replying to.
\<close>

record task =
  t_handler :: handler
  t_inbox :: "(string option \<times> stamps) list"
  t_awaiting :: "(string \<times> stamps) option"

record 'p system =
  s_world :: world
  s_provider :: 'p
  s_tasks :: "task list"

text \<open>
  What the event loop can do next: let handler \<open>i\<close> take its next frame, resume handler
  \<open>i\<close> where it was suspended, or serve a call of the manager-send endpoint. A step that
  is not possible (no such handler, a suspended handler asked to receive, an empty inbox,
  nothing to resume), or whose provider polling never ends, gives \<open>None\<close>.
\<close>

datatype step = Receive nat | Resume nat | Post manager_payload datetime

fun do_step :: "config \<Rightarrow> 'p provider \<Rightarrow> step \<Rightarrow> 'p system \<Rightarrow> 'p system option" where
  "do_step cfg api (Receive i) s =
     (if i < length (s_tasks s) then
        (let t = s_tasks s ! i
         in case t_awaiting t of
              Some _ \<Rightarrow> None
            | None \<Rightarrow>
                (case t_inbox t of
                   [] \<Rightarrow> None
                 | (inbound, st) # rest \<Rightarrow>
                     (case pass_begin (t_handler t) inbound st (s_world s) of
                        (w2, message_text, reply) \<Rightarrow>
                          Some (s\<lparr>s_world := w2,
                                  s_tasks := (s_tasks s)[i := t\<lparr>t_inbox := rest,
                                     t_awaiting := (if reply then Some (message_text, st)
                                                    else None)\<rparr>]\<rparr>))))
      else None)"
| "do_step cfg api (Resume i) s =
     (if i < length (s_tasks s) then
        (let t = s_tasks s ! i
         in case t_awaiting t of
              None \<Rightarrow> None
            | Some (message_text, st) \<Rightarrow>
                (case pass_end cfg api (t_handler t) message_text st (s_provider s) (s_world s) of
                   None \<Rightarrow> None
                 | Some (w3, p') \<Rightarrow>
                     Some (s\<lparr>s_world := w3, s_provider := p',
                             s_tasks := (s_tasks s)[i := t\<lparr>t_awaiting := None\<rparr>]\<rparr>)))
      else None)"
| "do_step cfg api (Post payload now) s =
     Some (s\<lparr>s_world := snd (send_manager_message payload now (s_world s))\<rparr>)"

fun run_steps :: "config \<Rightarrow> 'p provider \<Rightarrow> step list \<Rightarrow> 'p system \<Rightarrow> 'p system option" where
  "run_steps cfg api [] s = Some s"
| "run_steps cfg api (x # xs) s =
     (case do_step cfg api x s of None \<Rightarrow> None | Some s' \<Rightarrow> run_steps cfg api xs s')"

text \<open>The rows of a conversation, in the order of insertion: sender and content.\<close>

definition stored :: "nat \<Rightarrow> world \<Rightarrow> (string \<times> string) list" where
  "stored tid w =
     map (\<lambda>m. (sender m, content m))
       (filter (\<lambda>m. message_thread_id m = tid) (messages (database w)))"

text \<open>The rows the user endpoint writes: those of the user and of the bot.\<close>

definition exchange :: "(string \<times> string) list \<Rightarrow> (string \<times> string) list" where
  "exchange rows = filter (\<lambda>r. fst r = ''user'' \<or> fst r = ''bot'') rows"

text \<open>
  Rows that are the turns of the texts \<open>ts\<close>, one after the other: for each text, in
  order, the user's row and then at most one row of the bot.
\<close>

fun turns :: "string list \<Rightarrow> (string \<times> string) list \<Rightarrow> bool" where
  "turns [] rows = (rows = [])"
| "turns (t # ts) [] = False"
| "turns (t # ts) (r # rows) =
     (r = (''user'', t) \<and>
      (turns ts rows \<or>
       (case rows of [] \<Rightarrow> False | (s, b) # rest \<Rightarrow> s = ''bot'' \<and> turns ts rest)))"

text \<open>
  The same for a handler that may be in the middle of a turn: when it is suspended
  before the reply to \<open>t\<close>, the last text is \<open>t\<close>, the last row is the user's row for
  \<open>t\<close>, and what comes before are whole turns.
\<close>

fun turns_so_far ::
  "(string \<times> stamps) option \<Rightarrow> string list \<Rightarrow> (string \<times> string) list \<Rightarrow> bool" where
  "turns_so_far None ts R = turns ts R"
| "turns_so_far (Some (t, st)) ts R =
     (ts \<noteq> [] \<and> last ts = t \<and> R \<noteq> [] \<and> last R = (''user'', t) \<and>
      turns (butlast ts) (butlast R))"

definition text_of :: "string option \<times> stamps \<Rightarrow> string" where
  "text_of f = (case fst f of None \<Rightarrow> [] | Some s \<Rightarrow> s)"

section \<open>Sample states\<close>

definition ts0 :: datetime where "ts0 = (2024, 1, 1, 10, 0, 0, 0)"
definition ts1 :: datetime where "ts1 = (2024, 1, 1, 10, 0, 5, 0)"
definition ts2 :: datetime where "ts2 = (2024, 1, 1, 10, 0, 9, 250)"

text \<open>One user, \<open>c1\<close>, connected on socket 1, and one manager on socket 7.\<close>

definition sample_world :: world where
  "sample_world =
     manager_connect 7 (snd (websocket_endpoint_open 1 (Some ''c1'') ts0 empty_world))"

definition first_handler :: handler where
  "first_handler = \<lparr>h_websocket = 1, h_chat_id = ''c1'', h_user_id = 1, h_thread_id = 1\<rparr>"

text \<open>The same user connects a second time, on socket 2, while the first handler still runs.\<close>

definition reconnected_world :: world where
  "reconnected_world =
     snd (websocket_endpoint_open 2 (Some ''c1'') ts0
       (snd (websocket_endpoint_open 1 (Some ''c1'') ts0 empty_world)))"

text \<open>
  A provider whose state is the seconds gone by. Its thread has one run: queued at
  first, in progress from second 1, completed at second 8; until then it refuses new
  messages.
\<close>

definition busy_provider :: "nat provider" where
  "busy_provider =
     \<lparr>threads_create = (\<lambda>question p. (Inr ''thread_1'', p)),
      runs_list = (\<lambda>tid p. (Inr [\<lparr>run_id = ''run_1'',
                     run_status = (if p < 1 then ''queued'' else if p < 8 then ''in_progress''
                                   else ''completed'')\<rparr>], p)),
      messages_create = (\<lambda>tid um p.
         (if p < 8
          then Inl (BadRequestError ''Can't add messages to thread_1 while a run run_1 is active.'')
          else Inr (), p)),
      submit_tool_outputs = (\<lambda>tid rid outs p. (Inr (), p)),
      create_run = (\<lambda>tid p. (Inr ''Hello'', p)),
      passing = (\<lambda>n p. p + n)\<rparr>"

definition no_ai :: config where
  "no_ai = \<lparr>openai_key = None, assistant_id = None\<rparr>"

definition st0 :: stamps where
  "st0 = \<lparr>at_user_message = ts1, at_openai_thread = ts1, at_bot_message = ts2\<rparr>"






text \<open>
  The handler of the second connection of \<open>c1\<close> in \<open>reconnected_world\<close>: same user, same
  conversation, socket 2. Both handlers have one frame to receive.
\<close>

definition second_handler :: handler where
  "second_handler = \<lparr>h_websocket = 2, h_chat_id = ''c1'', h_user_id = 1, h_thread_id = 1\<rparr>"

definition two_sockets :: "nat system" where
  "two_sockets =
     \<lparr>s_world = reconnected_world, s_provider = 0,
      s_tasks = [\<lparr>t_handler = first_handler, t_inbox = [(Some ''m1'', st0)], t_awaiting = None\<rparr>,
                 \<lparr>t_handler = second_handler, t_inbox = [(Some ''m2'', st0)], t_awaiting = None\<rparr>]\<rparr>"

text \<open>
  Two users, \<open>c1\<close> on socket 1 and \<open>c2\<close> on socket 3, each with one connection; a manager
  writes to \<open>c1\<close> in between.
\<close>

definition other_handler :: handler where
  "other_handler = \<lparr>h_websocket = 3, h_chat_id = ''c2'', h_user_id = 2, h_thread_id = 2\<rparr>"

definition two_identities :: "nat system" where
  "two_identities =
     \<lparr>s_world = snd (websocket_endpoint_open 3 (Some ''c2'') ts0 sample_world), s_provider = 0,
      s_tasks = [\<lparr>t_handler = first_handler, t_inbox = [(Some ''m1'', st0), (Some ''m2'', st0)],
                  t_awaiting = None\<rparr>,
                 \<lparr>t_handler = other_handler, t_inbox = [(Some ''n1'', st0)], t_awaiting = None\<rparr>]\<rparr>"

definition one_moment :: manager_payload where
  "one_moment = \<lparr>p_chat_id = Some ''c1'', p_message = Some ''one moment'', p_action = None,
                 p_manager_status = None\<rparr>"

definition busy_day :: "step list" where
  "busy_day = [Receive 0, Receive 1, Post one_moment ts1, Resume 0, Resume 1, Receive 0, Resume 0]"

lemmas eval_defs = websocket_endpoint_open_def empty_world_def empty_db_def user_connect_def emit_def
  find_user_def add_user_def add_thread_def fresh_id_def Let_def latest_thread_def
  websocket_endpoint_close_def user_disconnect_def manager_connect_def send_manager_message_def
  persist_def add_message_def send_personal_message_def broadcast_def bad_request_def

section \<open>The user registry\<close>

text \<open>
  C3, as the spec has it: a disconnect by a handler whose socket has been replaced leaves
  the newer connection registered. It does not: user \<open>c1\<close> connects on socket 1 and again
  on socket 2; when the first handler ends, its disconnect removes the entry that holds
  socket 2.
\<close>

theorem stale_disconnect_counterexample:
  "fst (websocket_endpoint_open 1 (Some ''c1'') ts0 empty_world) = Some first_handler
   \<and> user_connections reconnected_world ''c1'' = Some 2
   \<and> user_connections (websocket_endpoint_close first_handler reconnected_world) ''c1'' = None"
  by (simp add: reconnected_world_def first_handler_def ts0_def eval_defs)

text \<open>
  C3, amended: for every chat identity, the disconnect of a handler removes whatever
  connection is registered for the handler's chat identity, whichever socket the handler
  owns, and changes nothing else.
\<close>

theorem disconnect_removes_registered:
  "websocket_endpoint_close h w = w\<lparr>user_connections := (user_connections w)(h_chat_id h := None)\<rparr>"
  by (auto simp: websocket_endpoint_close_def user_disconnect_def domIff fun_upd_idem)

section \<open>The manager-send endpoint\<close>

text \<open>
  C5: a manager-send request without \<open>message\<close> or without \<open>chat_id\<close> (absent, null or
  empty) is answered with the client error 400, and the whole state stays as it was:
  nothing is stored, nothing is sent, the handoff set is unchanged.
\<close>

theorem send_manager_message_missing_field:
  assumes "p_chat_id payload = None \<or> p_chat_id payload = Some [] \<or>
           p_message payload = None \<or> p_message payload = Some []"
  shows "send_manager_message payload now w =
           (HTTPException 400 ''chat_id and message are required'', w)"
  using assms by (auto simp: send_manager_message_def bad_request_def split: option.splits)

theorem send_manager_message_missing_field_witness:
  "send_manager_message \<lparr>p_chat_id = Some ''c1'', p_message = None, p_action = None,
       p_manager_status = Some (JBool True)\<rparr> ts1 sample_world
     = (HTTPException 400 ''chat_id and message are required'', sample_world)
   \<and> is_client_error (fst (send_manager_message \<lparr>p_chat_id = Some ''c1'', p_message = None,
         p_action = None, p_manager_status = Some (JBool True)\<rparr> ts1 sample_world))"
  using send_manager_message_missing_field [of "\<lparr>p_chat_id = Some ''c1'', p_message = None,
       p_action = None, p_manager_status = Some (JBool True)\<rparr>" ts1 sample_world]
  by (simp add: is_client_error_def)

text \<open>
  C10: with \<open>chat_id\<close>, \<open>message\<close> and a \<open>managerStatus\<close> present, the claim or release is
  applied before the user is looked up: for an unknown chat identity the answer is 404
  and the handoff set has already been changed.
\<close>

theorem manager_status_applied_before_lookup:
  assumes "p_chat_id payload = Some c" and "c \<noteq> []"
    and "p_message payload = Some m" and "m \<noteq> []"
    and "p_manager_status payload = Some v"
    and "find_user (database w) c = None"
  shows "send_manager_message payload now w =
           (HTTPException 404 ''User not found'',
            w\<lparr>active_manager_chats :=
                (if truthy (Some v) then insert c (active_manager_chats w)
                 else active_manager_chats w - {c})\<rparr>)"
  using assms by (simp add: send_manager_message_def)

theorem manager_status_applied_before_lookup_witness:
  "send_manager_message \<lparr>p_chat_id = Some ''ghost'', p_message = Some ''hi'', p_action = None,
       p_manager_status = Some (JBool True)\<rparr> ts1 sample_world
     = (HTTPException 404 ''User not found'', sample_world\<lparr>active_manager_chats := {''ghost''}\<rparr>)
   \<and> ''ghost'' \<notin> active_manager_chats sample_world"
  using manager_status_applied_before_lookup [of "\<lparr>p_chat_id = Some ''ghost'',
       p_message = Some ''hi'', p_action = None, p_manager_status = Some (JBool True)\<rparr>"
       "''ghost''" "''hi''" "JBool True" sample_world ts1]
  by (simp add: sample_world_def ts0_def eval_defs)

text \<open>
  C7: every frame broadcast to the managers should carry one of the senders \<open>user\<close>,
  \<open>bot\<close>, \<open>manager\<close>, \<open>action\<close>. For a manager message without \<open>action\<close> the stored row
  and the frame to the user say \<open>manager\<close>, but the frame to the managers says
  \<open>manager\<close> followed by a space.
\<close>

theorem manager_broadcast_sender_trailing_space:
  "trace (snd (send_manager_message
       \<lparr>p_chat_id = Some ''c1'', p_message = Some ''hi'', p_action = None, p_manager_status = None\<rparr>
       ts1 sample_world))
   = trace sample_world @
     [Persist ''manager'' ''hi'',
      UserSend 1 [(''type'', ''message''), (''message'', ''hi''), (''sender'', ''manager'')],
      ManagerSend 7 [(''chat_id'', ''c1''), (''type'', ''message''), (''message'', ''hi''),
                     (''sender'', ''manager '')]]
   \<and> ''manager '' \<notin> {''user'', ''bot'', ''manager'', ''action''}"
  by (simp add: sample_world_def ts0_def eval_defs)

section \<open>The history endpoint\<close>

text \<open>
  C6, as the spec has it: an unknown chat identity gets a client error. It does not: the
  answer is the empty list, served as a success.
\<close>

theorem history_unknown_counterexample:
  "get_chat_history ''ghost'' (database sample_world) = JSONResponse []
   \<and> \<not> is_client_error (get_chat_history ''ghost'' (database sample_world))"
  by (simp add: sample_world_def ts0_def eval_defs get_chat_history_def is_client_error_def)

text \<open>
  C6, amended: for a chat identity with no user, or with a user that has no conversation,
  the history endpoint answers with the empty history, as a success.
\<close>

theorem history_unknown_empty:
  assumes "find_user d chat_id = None \<or>
           (\<exists>u. find_user d chat_id = Some u \<and> latest_thread d (user_id u) = None)"
  shows "get_chat_history chat_id d = JSONResponse []"
  using assms by (auto simp: get_chat_history_def)

theorem history_unknown_empty_witness:
  "get_chat_history ''ghost'' (database sample_world) = JSONResponse []
   \<and> get_chat_history ''c2''
        \<lparr>users = [\<lparr>user_id = 1, user_chat_id = ''c2'', email = None, phone = None\<rparr>],
         threads = [], messages = [], openai_threads = []\<rparr> = JSONResponse []"
  using history_unknown_empty [of "database sample_world" "''ghost''"]
    history_unknown_empty [of "\<lparr>users = [\<lparr>user_id = 1, user_chat_id = ''c2'', email = None,
        phone = None\<rparr>], threads = [], messages = [], openai_threads = []\<rparr>" "''c2''"]
  by (simp add: sample_world_def ts0_def eval_defs)

section \<open>The AI responder\<close>

lemma wait_active_runs_Some:
  "wait_active_runs api tid p tr = Some y \<Longrightarrow>
     (\<forall>runs. fst y = Inr runs \<longrightarrow> runs = []) \<and> (\<exists>ev. snd (snd y) = tr @ ev \<and> polling tid ev)"
proof (induction api tid p tr y rule: wait_active_runs.raw_induct[rotated 1, consumes 1])
  case (1 wait_active_runs api tid p tr y)
  show ?case
  proof (cases "runs_list api tid p")
    case (Pair r p')
    show ?thesis
    proof (cases r)
      case (Inl e)
      with 1(2) Pair show ?thesis by (auto simp: polling_def)
    next
      case (Inr runs)
      show ?thesis
      proof (cases "in_progress runs = []")
        case True
        with 1(2) Pair Inr show ?thesis by (auto simp: polling_def)
      next
        case False
        with 1(2) Pair Inr
        have "wait_active_runs api tid (passing api 1 p') (tr @ [RunsList tid, Sleep 1]) = Some y"
          by simp
        from 1(1)[OF this] show ?thesis by (auto simp: polling_def)
      qed
    qed
  qed
qed

lemma check_active_runs_Some:
  "check_active_runs api tid p tr = Some y \<Longrightarrow>
     (\<forall>b. fst y = Inr b \<longrightarrow> b) \<and> (\<exists>ev. snd (snd y) = tr @ ev \<and> polling tid ev)"
proof (induction api tid p tr y rule: check_active_runs.raw_induct[rotated 1, consumes 1])
  case (1 check_active_runs api tid p tr y)
  show ?case
  proof (cases "runs_list api tid p")
    case (Pair r p')
    show ?thesis
    proof (cases r)
      case (Inl e)
      with 1(2) Pair show ?thesis by (auto simp: polling_def)
    next
      case (Inr runs)
      show ?thesis
      proof (cases "in_progress runs = []")
        case True
        with 1(2) Pair Inr show ?thesis by (auto simp: polling_def)
      next
        case False
        with 1(2) Pair Inr
        have "check_active_runs api tid (passing api 1 p') (tr @ [RunsList tid, Sleep 1]) = Some y"
          by simp
        from 1(1)[OF this] show ?thesis by (auto simp: polling_def)
      qed
    qed
  qed
qed

declare send_attempts.simps [simp del]

lemma send_attempts_trace:
  "\<exists>ev. snd (snd (send_attempts api tid um mx att p tr)) = tr @ ev \<and> appending tid um ev"
proof (induction api tid um mx att p tr rule: send_attempts.induct)
  case (1 api tid user_message max_attempts attempt p tr)
  show ?case
  proof (cases "attempt < max_attempts")
    case False
    then show ?thesis by (subst send_attempts.simps) (simp add: appending_def)
  next
    case True
    show ?thesis
    proof (cases "messages_create api tid user_message p")
      case (Pair r p')
      show ?thesis
      proof (cases r)
        case (Inr u)
        with True Pair show ?thesis
          by (subst send_attempts.simps) (simp add: appending_def)
      next
        case (Inl e)
        show ?thesis
        proof (cases e)
          case (OtherError s)
          with True Pair Inl show ?thesis
            by (subst send_attempts.simps) (simp add: appending_def)
        next
          case (BadRequestError s)
          show ?thesis
          proof (cases "contains ''Can't add messages to'' s")
            case False
            with True Pair Inl BadRequestError show ?thesis
              by (subst send_attempts.simps) (simp add: appending_def)
          next
            case c: True
            from 1[OF True Pair[symmetric] Inl BadRequestError c]
            obtain ev where "snd (snd (send_attempts api tid user_message max_attempts (attempt + 1)
                 (passing api 1 p') (tr @ [MessagesCreate tid user_message, Sleep 1])))
               = (tr @ [MessagesCreate tid user_message, Sleep 1]) @ ev" and "appending tid user_message ev"
              by blast
            with True Pair Inl BadRequestError c show ?thesis
              by (subst send_attempts.simps) (auto simp: appending_def)
          qed
        qed
      qed
    qed
  qed
qed

lemma add_user_message_events:
  assumes "add_user_message api tid user_message p = Some (r, p', tr)"
  shows "tr \<noteq> [] \<and>
         (\<forall>e\<in>set tr. e = RunsList tid \<or> e = MessagesCreate tid user_message \<or> e = Sleep 1)"
proof -
  let ?ok = "\<lambda>tr. tr \<noteq> [] \<and>
     (\<forall>e\<in>set tr. e = RunsList tid \<or> e = MessagesCreate tid user_message \<or> e = Sleep 1)"
  obtain y where w: "wait_active_runs api tid p [] = Some y"
    using assms by (auto simp: add_user_message_def split: option.splits)
  obtain r1 p1 tr1 where y: "y = (r1, p1, tr1)" by (cases y) auto
  from wait_active_runs_Some[OF w] y
  have r1: "\<And>runs. r1 = Inr runs \<Longrightarrow> runs = []" and tr1: "polling tid tr1"
    by auto
  have n1: "?ok tr1" using tr1 by (auto simp: polling_def)
  show ?thesis
  proof (cases r1)
    case (Inl e)
    with assms w y n1 show ?thesis by (simp add: add_user_message_def)
  next
    case (Inr runs)
    then have runs: "runs = []" using r1 by simp
    obtain r2 p2 tr2 where s: "send_attempts api tid user_message 5 0 p1 tr1 = (r2, p2, tr2)"
      by (cases "send_attempts api tid user_message 5 0 p1 tr1") auto
    from send_attempts_trace[of api tid user_message 5 0 p1 tr1] s
    obtain ev where "tr2 = tr1 @ ev" "appending tid user_message ev" by auto
    then have n2: "?ok tr2" using n1 by (auto simp: appending_def)
    show ?thesis
    proof (cases r2)
      case (Inl e)
      with assms w y Inr s n2 show ?thesis by (simp add: add_user_message_def)
    next
      case r2: (Inr a)
      show ?thesis
      proof (cases a)
        case None
        with assms w y Inr s n2 r2 show ?thesis by (simp add: add_user_message_def)
      next
        case (Some attempt)
        show ?thesis
        proof (cases "5 \<le> attempt")
          case False
          with assms w y Inr s n2 r2 Some show ?thesis by (simp add: add_user_message_def)
        next
          case True
          with assms w y Inr s r2 Some runs
          obtain y4 where c: "check_active_runs api tid p2 tr2 = Some y4"
            by (auto simp: add_user_message_def split: option.splits)
          obtain r4 p4 tr4 where y4: "y4 = (r4, p4, tr4)" by (cases y4) auto
          from check_active_runs_Some[OF c] y4 obtain ev4 where "tr4 = tr2 @ ev4" "polling tid ev4"
            by auto
          then have n4: "?ok tr4" using n2 by (auto simp: polling_def)
          from assms w y Inr s r2 Some runs True c y4 n4 show ?thesis
            by (auto simp: add_user_message_def split: sum.splits if_splits prod.splits)
        qed
      qed
    qed
  qed
qed

text \<open>
  C4: after five refused appends the responder should submit a synthetic completion for
  every run in progress. The list it walks, \<open>active_runs\<close>, is the one the first polling
  loop left behind, and that loop ends only when the list is empty: whatever the provider
  does, a call of \<open>add_user_message\<close> that returns has submitted nothing.
\<close>

theorem add_user_message_never_submits:
  assumes "add_user_message api tid user_message p = Some (r, p', tr)"
  shows "filter is_submit tr = []"
proof -
  have "\<forall>e\<in>set tr. \<not> is_submit e"
    using add_user_message_events[OF assms] by auto
  then show ?thesis by (simp add: filter_empty_conv)
qed

theorem add_user_message_never_submits_witness:
  "add_user_message busy_provider ''thread_1'' ''hi'' 0 =
     Some (Inr (), 8,
       [RunsList ''thread_1'',
        MessagesCreate ''thread_1'' ''hi'', Sleep 1, MessagesCreate ''thread_1'' ''hi'', Sleep 1,
        MessagesCreate ''thread_1'' ''hi'', Sleep 1, MessagesCreate ''thread_1'' ''hi'', Sleep 1,
        MessagesCreate ''thread_1'' ''hi'', Sleep 1,
        RunsList ''thread_1'', Sleep 1, RunsList ''thread_1'', Sleep 1, RunsList ''thread_1'', Sleep 1,
        RunsList ''thread_1'', MessagesCreate ''thread_1'' ''hi''])
   \<and> fst (runs_list busy_provider ''thread_1'' 5)
       = Inr [\<lparr>run_id = ''run_1'', run_status = ''in_progress''\<rparr>]
   \<and> filter is_submit
       [RunsList ''thread_1'',
        MessagesCreate ''thread_1'' ''hi'', Sleep 1, MessagesCreate ''thread_1'' ''hi'', Sleep 1,
        MessagesCreate ''thread_1'' ''hi'', Sleep 1, MessagesCreate ''thread_1'' ''hi'', Sleep 1,
        MessagesCreate ''thread_1'' ''hi'', Sleep 1,
        RunsList ''thread_1'', Sleep 1, RunsList ''thread_1'', Sleep 1, RunsList ''thread_1'', Sleep 1,
        RunsList ''thread_1'', MessagesCreate ''thread_1'' ''hi''] = []"
proof -
  have e: "add_user_message busy_provider ''thread_1'' ''hi'' 0 =
     Some (Inr (), 8,
       [RunsList ''thread_1'',
        MessagesCreate ''thread_1'' ''hi'', Sleep 1, MessagesCreate ''thread_1'' ''hi'', Sleep 1,
        MessagesCreate ''thread_1'' ''hi'', Sleep 1, MessagesCreate ''thread_1'' ''hi'', Sleep 1,
        MessagesCreate ''thread_1'' ''hi'', Sleep 1,
        RunsList ''thread_1'', Sleep 1, RunsList ''thread_1'', Sleep 1, RunsList ''thread_1'', Sleep 1,
        RunsList ''thread_1'', MessagesCreate ''thread_1'' ''hi''])"
    by code_simp
  have l: "fst (runs_list busy_provider ''thread_1'' 5)
             = Inr [\<lparr>run_id = ''run_1'', run_status = ''in_progress''\<rparr>]"
    by (simp add: busy_provider_def)
  from add_user_message_never_submits[OF e] e l show ?thesis by simp
qed

section \<open>The handoff gate\<close>

lemma trace_emit [simp]: "trace (emit es w) = trace w @ es"
  by (simp add: emit_def)






lemma received_active [simp]:
  "active_manager_chats (received h inbound st w) = active_manager_chats w"
  by (simp add: received_def Let_def)

lemma deliver_bot_eq:
  "deliver_bot c b w = w\<lparr>trace := trace w @ bot_frames c b w\<rparr>"
  by (simp add: deliver_bot_def broadcast_def send_personal_message_def emit_def bot_frames_def
           split: option.splits)

lemma openai_error_eq:
  "openai_error h e (emit calls w) = replied h st calls (Inl e) w"
  by (simp add: openai_error_def deliver_bot_eq replied_def emit_def bot_frames_def)

lemma run_turn_eq:
  "run_turn api h oid st p (emit calls w) =
     (case create_run api oid p of
        (out, p') \<Rightarrow> (replied h st (calls @ [CreateRun oid]) out w, p'))"
  by (simp add: run_turn_def openai_error_def deliver_bot_eq replied_def emit_def persist_def
        bot_frames_def split: prod.splits sum.splits)

lemma echo_turn_eq:
  "echo_turn h um st w = replied h st [Sleep 4] (Inr (''Bot echo: '' @ um)) w"
  by (simp add: echo_turn_def deliver_bot_eq replied_def emit_def persist_def bot_frames_def Let_def)


lemma ai_turn_unbound:
  assumes "find_openai_thread (database w) (h_user_id h) = None"
  shows "ai_turn api h um st p w =
     (case threads_create api um p of
        (Inl e, p1) \<Rightarrow> Some (replied h st [CreateThread um] (Inl e) w, p1)
      | (Inr oid, p1) \<Rightarrow>
          (case create_run api oid p1 of
             (out, p2) \<Rightarrow>
               Some (replied h st [CreateThread um, CreateRun oid] out
                       (w\<lparr>database := add_openai_thread (h_user_id h) oid (at_openai_thread st)
                                        (database w)\<rparr>), p2)))"
proof (cases "threads_create api um p")
  case (Pair r p1)
  show ?thesis
  proof (cases r)
    case (Inl e)
    with assms Pair show ?thesis
      by (simp add: ai_turn_def create_thread_def openai_error_eq)
  next
    case (Inr oid)
    have "(emit [CreateThread um] w)\<lparr>database :=
             add_openai_thread (h_user_id h) oid (at_openai_thread st) (database w)\<rparr>
          = emit [CreateThread um] (w\<lparr>database :=
             add_openai_thread (h_user_id h) oid (at_openai_thread st) (database w)\<rparr>)"
      by (simp add: emit_def)
    with assms Pair Inr show ?thesis
      by (simp add: ai_turn_def create_thread_def run_turn_eq split: prod.splits)
  qed
qed

lemma ai_turn_bound:
  assumes "find_openai_thread (database w) (h_user_id h) = Some t"
  shows "ai_turn api h um st p w =
     (case add_user_message api (openai_thread_id t) um p of
        None \<Rightarrow> None
      | Some (Inl e, p1, tr1) \<Rightarrow> Some (replied h st tr1 (Inl e) w, p1)
      | Some (Inr u, p1, tr1) \<Rightarrow>
          (case create_run api (openai_thread_id t) p1 of
             (out, p2) \<Rightarrow>
               Some (replied h st (tr1 @ [CreateRun (openai_thread_id t)]) out w, p2)))"
  using assms
  by (simp add: ai_turn_def openai_error_eq run_turn_eq split: option.splits prod.splits sum.splits)














section \<open>The echo reply\<close>

text \<open>
  C2, as the spec has it: without AI the reply to \<open>hello\<close> is \<open>echo: hello\<close>. It is not:
  the reply stored and sent is \<open>Bot echo: hello\<close>.
\<close>

theorem echo_prefix_counterexample:
  "map_option (trace \<circ> fst)
     (websocket_endpoint_message no_ai busy_provider first_handler (Some ''hello'') st0 0 sample_world)
   = Some (trace sample_world @
       [Persist ''user'' ''hello'',
        ManagerSend 7 [(''chat_id'', ''c1''), (''type'', ''message''), (''message'', ''hello''),
                       (''sender'', ''user'')],
        Sleep 4,
        Persist ''bot'' ''Bot echo: hello'',
        UserSend 1 [(''type'', ''message''), (''message'', ''Bot echo: hello''), (''sender'', ''bot'')],
        ManagerSend 7 [(''chat_id'', ''c1''), (''type'', ''message''), (''message'', ''Bot echo: hello''),
                       (''sender'', ''bot'')]])
   \<and> ''Bot echo: hello'' \<noteq> ''echo: hello''"
  by (simp add: websocket_endpoint_message_def echo_turn_def deliver_bot_def ai_configured_def
      no_ai_def first_handler_def st0_def sample_world_def ts0_def eval_defs)

text \<open>
  C2, amended: when AI is not configured and the conversation is not claimed, a user
  message with text \<open>t\<close> always yields, after the pause of 4 seconds, a bot reply with body
  \<open>Bot echo: \<close> followed by \<open>t\<close>; it is stored, sent to the socket registered for the
  identity when there is one, and broadcast to every manager.
\<close>

theorem echo_reply:
  assumes "\<not> ai_configured cfg" and "h_chat_id h \<notin> active_manager_chats w"
  shows "websocket_endpoint_message cfg api h (Some t) st p w = Some (echo_reply_world h t st w, p)"
  using assms
  by (simp add: websocket_endpoint_message_def echo_turn_def deliver_bot_def broadcast_def
      send_personal_message_def persist_def emit_def echo_reply_world_def Let_def
      split: option.splits)

theorem echo_reply_witness:
  "\<not> ai_configured no_ai \<and> h_chat_id first_handler \<notin> active_manager_chats sample_world
   \<and> websocket_endpoint_message no_ai busy_provider first_handler (Some ''hello'') st0 0 sample_world
       = Some (echo_reply_world first_handler ''hello'' st0 sample_world, 0)
   \<and> map content (messages (database (echo_reply_world first_handler ''hello'' st0 sample_world)))
       = [''hello'', ''Bot echo: hello'']"
proof -
  have a: "\<not> ai_configured no_ai" by (simp add: ai_configured_def no_ai_def)
  have b: "h_chat_id first_handler \<notin> active_manager_chats sample_world"
    by (simp add: first_handler_def sample_world_def ts0_def eval_defs)
  have c: "map content (messages (database (echo_reply_world first_handler ''hello'' st0 sample_world)))
       = [''hello'', ''Bot echo: hello'']"
    by (simp add: echo_reply_world_def sample_world_def ts0_def eval_defs)
  from echo_reply[OF a b, of busy_provider "''hello''" st0 0] a b c show ?thesis by simp
qed

section \<open>The text of a timestamp keeps the order\<close>

lemma length_pad [simp]: "length (pad n k) = n"
  by (induction n arbitrary: k) auto
















section \<open>The manager listing\<close>






















section \<open>Handlers running side by side\<close>

text \<open>
  The two halves of a pass, taken one after the other with nothing in between, are the
  pass of \<open>websocket_endpoint_message\<close>.
\<close>

lemma pass_split:
  "websocket_endpoint_message cfg api h inbound st p w =
     (case pass_begin h inbound st w of
        (w2, um, reply) \<Rightarrow> if reply then pass_end cfg api h um st p w2 else Some (w2, p))"
  by (simp add: websocket_endpoint_message_def pass_begin_def pass_end_def Let_def)

lemma uninterrupted_pass:
  assumes "i < length (s_tasks s)" and "t_awaiting (s_tasks s ! i) = None"
    and "t_inbox (s_tasks s ! i) = (inbound, st) # rest"
  shows "map_option (\<lambda>s'. (s_world s', s_provider s'))
           (run_steps cfg api
              (if h_chat_id (t_handler (s_tasks s ! i)) \<notin> active_manager_chats (s_world s)
               then [Receive i, Resume i] else [Receive i]) s)
         = websocket_endpoint_message cfg api (t_handler (s_tasks s ! i)) inbound st
             (s_provider s) (s_world s)"
proof -
  let ?t = "s_tasks s ! i"
  obtain w2 um reply where pb: "pass_begin (t_handler ?t) inbound st (s_world s) = (w2, um, reply)"
    by (cases "pass_begin (t_handler ?t) inbound st (s_world s)") auto
  then have reply: "reply = (h_chat_id (t_handler ?t) \<notin> active_manager_chats (s_world s))"
    by (auto simp: pass_begin_def Let_def broadcast_def persist_def emit_def)
  let ?s1 = "s\<lparr>s_world := w2,
               s_tasks := (s_tasks s)[i := ?t\<lparr>t_inbox := rest,
                  t_awaiting := (if reply then Some (um, st) else None)\<rparr>]\<rparr>"
  from assms pb have d: "do_step cfg api (Receive i) s = Some ?s1"
    by (simp add: Let_def)
  show ?thesis
  proof (cases reply)
    case False
    with d reply pb show ?thesis by (simp add: pass_split)
  next
    case True
    have aw: "i < length (s_tasks ?s1)" "t_awaiting (s_tasks ?s1 ! i) = Some (um, st)"
      "t_handler (s_tasks ?s1 ! i) = t_handler ?t" "s_provider ?s1 = s_provider s"
      "s_world ?s1 = w2"
      using assms(1) True by simp_all
    show ?thesis
    proof (cases "pass_end cfg api (t_handler ?t) um st (s_provider s) w2")
      case None
      with aw have "do_step cfg api (Resume i) ?s1 = None"
        by (simp add: Let_def del: system.simps task.simps)
      with d reply pb True None show ?thesis by (simp add: pass_split)
    next
      case (Some r)
      obtain w3 p' where r: "r = (w3, p')" by (cases r) auto
      from Some r aw have "do_step cfg api (Resume i) ?s1 =
          Some (?s1\<lparr>s_world := w3, s_provider := p',
                  s_tasks := (s_tasks ?s1)[i := (s_tasks ?s1 ! i)\<lparr>t_awaiting := None\<rparr>]\<rparr>)"
        by (simp add: Let_def del: system.simps task.simps)
      with d reply pb True Some r show ?thesis by (simp add: pass_split)
    qed
  qed
qed

lemma stored_trace [simp]: "stored tid (w\<lparr>trace := tr\<rparr>) = stored tid w"
  by (simp add: stored_def)

lemma stored_handoff [simp]: "stored tid (w\<lparr>active_manager_chats := a\<rparr>) = stored tid w"
  by (simp add: stored_def)

lemma stored_openai_thread [simp]:
  "stored tid (w\<lparr>database := add_openai_thread uid oid ts (database w)\<rparr>) = stored tid w"
  by (simp add: stored_def add_openai_thread_def)

lemma stored_replied:
  "stored tid (replied h st calls out w) =
     stored tid w @ (case out of Inl e \<Rightarrow> []
                     | Inr r \<Rightarrow> if h_thread_id h = tid then [(''bot'', r)] else [])"
  by (cases out) (simp_all add: replied_def stored_def add_message_def)

lemma stored_pass_begin:
  "pass_begin h inbound st w = (w2, um, reply) \<Longrightarrow>
     um = (case inbound of None \<Rightarrow> [] | Some s \<Rightarrow> s) \<and>
     stored tid w2 = stored tid w @ (if h_thread_id h = tid then [(''user'', um)] else [])"
  by (auto simp: pass_begin_def Let_def broadcast_def persist_def emit_def stored_def add_message_def)

lemma stored_ai_turn:
  assumes "ai_turn api h um st p w = Some (w', p')"
  shows "\<exists>rows. (\<forall>tid. stored tid w' = stored tid w @ (if h_thread_id h = tid then rows else []))
               \<and> (rows = [] \<or> (\<exists>r. rows = [(''bot'', r)]))"
proof -
  have "\<exists>calls out w0. w' = replied h st calls out w0 \<and> (\<forall>tid. stored tid w0 = stored tid w)"
  proof (cases "find_openai_thread (database w) (h_user_id h)")
    case None
    obtain r1 p1 where tc: "threads_create api um p = (r1, p1)"
      by (cases "threads_create api um p") auto
    show ?thesis
    proof (cases r1)
      case (Inl e)
      with assms ai_turn_unbound[OF None, of api um st p] tc
      have "w' = replied h st [CreateThread um] (Inl e) w" by simp
      then show ?thesis by blast
    next
      case (Inr oid)
      obtain out p2 where cr: "create_run api oid p1 = (out, p2)"
        by (cases "create_run api oid p1") auto
      let ?w0 = "w\<lparr>database := add_openai_thread (h_user_id h) oid (at_openai_thread st)
                                  (database w)\<rparr>"
      from assms ai_turn_unbound[OF None, of api um st p] tc Inr cr
      have "w' = replied h st [CreateThread um, CreateRun oid] out ?w0" by simp
      moreover have "\<forall>tid. stored tid ?w0 = stored tid w" by simp
      ultimately show ?thesis by blast
    qed
  next
    case (Some t)
    from assms ai_turn_bound[OF Some, of api um st p]
    have "\<exists>calls out. w' = replied h st calls out w"
      by (auto split: option.splits prod.splits sum.splits)
    then show ?thesis by blast
  qed
  then obtain calls out w0
    where w': "w' = replied h st calls out w0" and w0: "\<forall>tid. stored tid w0 = stored tid w"
    by blast
  show ?thesis
  proof (cases out)
    case (Inl e)
    with w' w0 have "\<forall>tid. stored tid w' = stored tid w @ (if h_thread_id h = tid then [] else [])"
      by (simp add: stored_replied)
    then show ?thesis by blast
  next
    case (Inr r)
    with w' w0
    have "\<forall>tid. stored tid w' = stored tid w @ (if h_thread_id h = tid then [(''bot'', r)] else [])"
      by (simp add: stored_replied)
    then show ?thesis by blast
  qed
qed

lemma stored_pass_end:
  assumes "pass_end cfg api h um st p w = Some (w', p')"
  shows "\<exists>rows. (\<forall>tid. stored tid w' = stored tid w @ (if h_thread_id h = tid then rows else []))
               \<and> (rows = [] \<or> (\<exists>r. rows = [(''bot'', r)]))"
proof (cases "ai_configured cfg")
  case True
  with assms have "ai_turn api h um st p w = Some (w', p')" by (simp add: pass_end_def)
  then show ?thesis by (rule stored_ai_turn)
next
  case False
  with assms have "w' = echo_turn h um st w" by (simp add: pass_end_def)
  then have "\<forall>tid. stored tid w' = stored tid w @
      (if h_thread_id h = tid then [(''bot'', ''Bot echo: '' @ um)] else [])"
    by (simp add: echo_turn_eq stored_replied)
  then show ?thesis by blast
qed

lemma exchange_append [simp]: "exchange (xs @ ys) = exchange xs @ exchange ys"
  by (simp add: exchange_def)

lemma stored_manager_row:
  assumes "role = ''manager'' \<or> role = ''action''" and "stored tid w1 = stored tid w"
  shows "\<exists>rows. stored tid (persist t role um now w1) = stored tid w @ rows \<and> exchange rows = []"
proof (cases "t = tid")
  case True
  with assms(2) have "stored tid (persist t role um now w1) = stored tid w @ [(role, um)]"
    by (simp add: persist_def emit_def stored_def add_message_def)
  moreover from assms(1) have "exchange [(role, um)] = []" by (auto simp: exchange_def)
  ultimately show ?thesis by blast
next
  case False
  with assms(2) have "stored tid (persist t role um now w1) = stored tid w @ []"
    by (simp add: persist_def emit_def stored_def add_message_def)
  moreover have "exchange [] = []" by (simp add: exchange_def)
  ultimately show ?thesis by blast
qed

lemma stored_send_manager_message:
  "\<exists>rows. stored tid (snd (send_manager_message payload now w)) = stored tid w @ rows
           \<and> exchange rows = []"
proof -
  have e: "\<exists>rows. stored tid w = stored tid w @ rows \<and> exchange rows = []"
    by (intro exI[where x = "[]"]) (simp add: exchange_def)
  show ?thesis
  proof (cases "p_chat_id payload")
    case None
    then have "snd (send_manager_message payload now w) = w"
      by (simp add: send_manager_message_def)
    with e show ?thesis by simp
  next
    case c: (Some c)
    show ?thesis
    proof (cases "p_message payload")
      case None
      with c have "snd (send_manager_message payload now w) = w"
        by (simp add: send_manager_message_def)
      with e show ?thesis by simp
    next
      case m: (Some m)
      show ?thesis
      proof (cases "c = [] \<or> m = []")
        case True
        with c m have "snd (send_manager_message payload now w) = w"
          by (simp add: send_manager_message_def)
        with e show ?thesis by simp
      next
        case ne: False
        define w1 where "w1 = (if p_manager_status payload \<noteq> None
                      then (if truthy (p_manager_status payload)
                            then w\<lparr>active_manager_chats := insert c (active_manager_chats w)\<rparr>
                            else w\<lparr>active_manager_chats := active_manager_chats w - {c}\<rparr>)
                      else w)"
        have w1: "stored tid w1 = stored tid w" by (simp add: w1_def)
        have r: "send_manager_message payload now w =
            (case find_user (database w1) c of
                  None \<Rightarrow> (HTTPException 404 ''User not found'', w1)
                | Some u \<Rightarrow>
               (case latest_thread (database w1) (user_id u) of
                  None \<Rightarrow> (HTTPException 404 ''Thread not found'', w1)
                | Some t \<Rightarrow>
                    (JSONResponse [(''status'', ''ok'')],
                     broadcast
                       [(''chat_id'', c), (''type'', ''message''), (''message'', m),
                        (''sender'', if p_action payload = None then ''manager '' else ''action'')]
                       (send_personal_message
                          (if \<not> truthy (p_action payload)
                           then [(''type'', ''message''), (''message'', m), (''sender'', ''manager'')]
                           else [(''type'', ''message''), (''message'', m), (''sender'', ''action'')])
                          c
                          (persist (thread_id t)
                             (if p_action payload = None then ''manager'' else ''action'')
                             m now w1)))))"
          using c m ne unfolding send_manager_message_def w1_def Let_def by simp
        show ?thesis
        proof (cases "find_user (database w1) c")
          case None
          with r have "snd (send_manager_message payload now w) = w1" by simp
          with e w1 show ?thesis by simp
        next
          case u: (Some u)
          show ?thesis
          proof (cases "latest_thread (database w1) (user_id u)")
            case None
            with r u have "snd (send_manager_message payload now w) = w1" by simp
            with e w1 show ?thesis by simp
          next
            case (Some t)
            let ?role = "if p_action payload = None then ''manager'' else ''action''"
            have ro: "?role = ''manager'' \<or> ?role = ''action''" by simp
            from r u Some obtain f g where
              "snd (send_manager_message payload now w) =
                 broadcast f (send_personal_message g c (persist (thread_id t) ?role m now w1))"
              by simp
            moreover have "stored tid (broadcast f (send_personal_message g c
                               (persist (thread_id t) ?role m now w1)))
                  = stored tid (persist (thread_id t) ?role m now w1)"
              by (simp add: broadcast_def send_personal_message_def emit_def split: option.splits)
            ultimately show ?thesis
              using stored_manager_row[OF ro w1, of "thread_id t" m now] by simp
          qed
        qed
      qed
    qed
  qed
qed

lemma turns_user: "turns ts R \<Longrightarrow> turns (ts @ [t]) (R @ [(''user'', t)])"
proof (induction ts R rule: turns.induct)
  case (1 rows)
  then show ?case by simp
next
  case (2 t ts)
  then show ?case by simp
next
  case (3 t' ts r rows)
  then show ?case by (auto split: list.splits)
qed

lemma turns_user_bot:
  "turns ts R \<Longrightarrow> turns (ts @ [t]) (R @ [(''user'', t), (''bot'', b)])"
proof (induction ts R rule: turns.induct)
  case (1 rows)
  then show ?case by simp
next
  case (2 t ts)
  then show ?case by simp
next
  case (3 t' ts r rows)
  then show ?case by (auto split: list.splits)
qed

lemma run_steps_snoc:
  "run_steps cfg api (xs @ [x]) s =
     (case run_steps cfg api xs s of None \<Rightarrow> None | Some s1 \<Rightarrow> do_step cfg api x s1)"
  by (induction xs arbitrary: s) (auto split: option.splits)

lemma do_step_Receive:
  assumes "do_step cfg api (Receive j) s = Some s'"
  shows "j < length (s_tasks s) \<and> t_awaiting (s_tasks s ! j) = None \<and>
     (\<exists>f rest sl.
        t_inbox (s_tasks s ! j) = f # rest \<and>
        s_tasks s' = (s_tasks s)[j := (s_tasks s ! j)\<lparr>t_inbox := rest, t_awaiting := sl\<rparr>] \<and>
        (\<forall>tid. stored tid (s_world s') =
           stored tid (s_world s) @
             (if h_thread_id (t_handler (s_tasks s ! j)) = tid then [(''user'', text_of f)]
              else [])) \<and>
        (sl = None \<or> sl = Some (text_of f, snd f)))"
proof -
  let ?t = "s_tasks s ! j"
  from assms have j: "j < length (s_tasks s)" by (simp split: if_splits)
  from assms j have sl: "t_awaiting ?t = None"
    by (simp add: Let_def split: option.splits)
  from assms j sl obtain inbound st rest where ib: "t_inbox ?t = (inbound, st) # rest"
    by (cases "t_inbox ?t") (auto simp: Let_def)
  obtain w2 um reply where pb: "pass_begin (t_handler ?t) inbound st (s_world s) = (w2, um, reply)"
    by (cases "pass_begin (t_handler ?t) inbound st (s_world s)") auto
  from stored_pass_begin[OF pb]
  have um: "um = text_of (inbound, st)"
    and w2: "\<And>tid. stored tid w2 = stored tid (s_world s) @
               (if h_thread_id (t_handler ?t) = tid then [(''user'', um)] else [])"
    by (simp_all add: text_of_def)
  let ?sl = "if reply then Some (um, st) else None"
  from assms j sl ib pb
  have s': "s' = s\<lparr>s_world := w2,
               s_tasks := (s_tasks s)[j := ?t\<lparr>t_inbox := rest, t_awaiting := ?sl\<rparr>]\<rparr>"
    by (simp add: Let_def)
  have "\<forall>tid. stored tid (s_world s') =
         stored tid (s_world s) @
           (if h_thread_id (t_handler ?t) = tid then [(''user'', text_of (inbound, st))] else [])"
    using s' w2 um by simp
  with j sl ib s' um show ?thesis
    by (intro conjI exI[where x = "(inbound, st)"] exI[where x = rest] exI[where x = ?sl])
       simp_all
qed

lemma do_step_Resume:
  assumes "do_step cfg api (Resume j) s = Some s'"
  shows "j < length (s_tasks s) \<and>
     (\<exists>um st rows.
        t_awaiting (s_tasks s ! j) = Some (um, st) \<and>
        s_tasks s' = (s_tasks s)[j := (s_tasks s ! j)\<lparr>t_awaiting := None\<rparr>] \<and>
        (\<forall>tid. stored tid (s_world s') =
           stored tid (s_world s) @
             (if h_thread_id (t_handler (s_tasks s ! j)) = tid then rows else [])) \<and>
        (rows = [] \<or> (\<exists>r. rows = [(''bot'', r)])))"
proof -
  let ?t = "s_tasks s ! j"
  from assms have j: "j < length (s_tasks s)" by (simp split: if_splits)
  from assms j obtain um st where sl: "t_awaiting ?t = Some (um, st)"
    by (cases "t_awaiting ?t") (auto simp: Let_def)
  from assms j sl obtain w3 p'
    where pe: "pass_end cfg api (t_handler ?t) um st (s_provider s) (s_world s) = Some (w3, p')"
      and s': "s' = s\<lparr>s_world := w3, s_provider := p',
                 s_tasks := (s_tasks s)[j := ?t\<lparr>t_awaiting := None\<rparr>]\<rparr>"
    by (auto simp: Let_def split: option.splits)
  from stored_pass_end[OF pe] obtain rows
    where rows: "\<forall>tid. stored tid w3 = stored tid (s_world s) @
                    (if h_thread_id (t_handler ?t) = tid then rows else [])"
      and shape: "rows = [] \<or> (\<exists>r. rows = [(''bot'', r)])"
    by blast
  from rows s' have "\<forall>tid. stored tid (s_world s') = stored tid (s_world s) @
                    (if h_thread_id (t_handler ?t) = tid then rows else [])"
    by simp
  with j sl s' shape show ?thesis
    by (intro conjI exI[where x = um] exI[where x = st] exI[where x = rows]) simp_all
qed

lemma do_step_Post:
  assumes "do_step cfg api (Post payload now) s = Some s'"
  shows "s_tasks s' = s_tasks s \<and>
     (\<forall>tid. \<exists>rows. stored tid (s_world s') = stored tid (s_world s) @ rows \<and> exchange rows = [])"
proof -
  from assms have s': "s' = s\<lparr>s_world := snd (send_manager_message payload now (s_world s))\<rparr>"
    by simp
  then show ?thesis using stored_send_manager_message[of _ payload now "s_world s"] by simp
qed

lemma do_step_handlers:
  assumes "do_step cfg api x s = Some s'"
  shows "map t_handler (s_tasks s') = map t_handler (s_tasks s)"
proof (cases x)
  case (Receive j)
  from do_step_Receive[OF assms[unfolded Receive]]
  obtain rest sl where j: "j < length (s_tasks s)"
    and ts: "s_tasks s' = (s_tasks s)[j := (s_tasks s ! j)\<lparr>t_inbox := rest, t_awaiting := sl\<rparr>]"
    by blast
  have "map t_handler (s_tasks s') = (map t_handler (s_tasks s))[j := t_handler (s_tasks s ! j)]"
    by (simp add: ts map_update)
  also have "\<dots> = map t_handler (s_tasks s)"
    using j by (simp add: list_update_same_conv)
  finally show ?thesis .
next
  case (Resume j)
  from do_step_Resume[OF assms[unfolded Resume]]
  obtain j: "j < length (s_tasks s)"
    and ts: "s_tasks s' = (s_tasks s)[j := (s_tasks s ! j)\<lparr>t_awaiting := None\<rparr>]"
    by blast
  have "map t_handler (s_tasks s') = (map t_handler (s_tasks s))[j := t_handler (s_tasks s ! j)]"
    by (simp add: ts map_update)
  also have "\<dots> = map t_handler (s_tasks s)"
    using j by (simp add: list_update_same_conv)
  finally show ?thesis .
next
  case (Post payload now)
  from do_step_Post[OF assms[unfolded Post]] show ?thesis by simp
qed

lemma run_steps_handlers:
  "run_steps cfg api sch s = Some s' \<Longrightarrow> map t_handler (s_tasks s') = map t_handler (s_tasks s)"
proof (induction sch arbitrary: s)
  case Nil
  then show ?case by simp
next
  case (Cons x xs)
  then obtain s1 where 1: "do_step cfg api x s = Some s1" and 2: "run_steps cfg api xs s1 = Some s'"
    by (auto split: option.splits)
  from Cons.IH[OF 2] do_step_handlers[OF 1] show ?case by simp
qed

lemma take_Suc_drop:
  assumes "drop k xs = f # rest"
  shows "k < length xs" "drop (Suc k) xs = rest" "take (Suc k) xs = take k xs @ [f]"
proof -
  show k: "k < length xs" using assms by (cases "k < length xs") auto
  from Cons_nth_drop_Suc[OF k] assms have f: "xs ! k = f" and "drop (Suc k) xs = rest" by auto
  then show "drop (Suc k) xs = rest" by simp
  from take_Suc_conv_app_nth[OF k] f show "take (Suc k) xs = take k xs @ [f]" by simp
qed

lemma two_sockets_run:
  "map_option (stored 1 \<circ> s_world)
     (run_steps no_ai busy_provider [Receive 0, Receive 1, Resume 0, Resume 1] two_sockets)
   = Some [(''user'', ''m1''), (''user'', ''m2''), (''bot'', ''Bot echo: m1''),
           (''bot'', ''Bot echo: m2'')]"
  by code_simp

lemma two_sockets_sequential:
  "map_option (stored 1 \<circ> s_world)
     (run_steps no_ai busy_provider [Receive 0, Resume 0, Receive 1, Resume 1] two_sockets)
   = Some [(''user'', ''m1''), (''bot'', ''Bot echo: m1''), (''user'', ''m2''),
           (''bot'', ''Bot echo: m2'')]"
  by code_simp

text \<open>
  C9, as the spec has it: the turns of one chat identity are processed one after the
  other; a second message of the identity is not begun before the first one's reply has
  been stored and delivered. They are not: nothing in \<open>websocket_endpoint\<close> queues or
  locks by identity. User \<open>c1\<close> is connected on sockets 1 and 2, and both handlers write
  to conversation 1. Socket 1 receives \<open>m1\<close>; while its handler is suspended in the pause
  of line 224, socket 2 receives \<open>m2\<close>, which is stored before the reply to \<open>m1\<close>. The
  rows of the conversation are then the two user messages followed by the two replies,
  which are not the turns of \<open>m1\<close> and \<open>m2\<close> one after the other, as they are when the
  second message arrives after the first reply.
\<close>

theorem concurrent_turns_counterexample:
  "fst (websocket_endpoint_open 2 (Some ''c1'') ts0
          (snd (websocket_endpoint_open 1 (Some ''c1'') ts0 empty_world))) = Some second_handler
   \<and> h_chat_id second_handler = h_chat_id first_handler
   \<and> h_thread_id second_handler = h_thread_id first_handler
   \<and> map_option (stored 1 \<circ> s_world)
        (run_steps no_ai busy_provider [Receive 0, Receive 1, Resume 0, Resume 1] two_sockets)
       = Some [(''user'', ''m1''), (''user'', ''m2''), (''bot'', ''Bot echo: m1''),
               (''bot'', ''Bot echo: m2'')]
   \<and> \<not> turns [''m1'', ''m2'']
          [(''user'', ''m1''), (''user'', ''m2''), (''bot'', ''Bot echo: m1''),
           (''bot'', ''Bot echo: m2'')]
   \<and> map_option (stored 1 \<circ> s_world)
        (run_steps no_ai busy_provider [Receive 0, Resume 0, Receive 1, Resume 1] two_sockets)
       = Some [(''user'', ''m1''), (''bot'', ''Bot echo: m1''), (''user'', ''m2''),
               (''bot'', ''Bot echo: m2'')]"
proof -
  have 1: "fst (websocket_endpoint_open 2 (Some ''c1'') ts0
          (snd (websocket_endpoint_open 1 (Some ''c1'') ts0 empty_world))) = Some second_handler"
    by (simp add: second_handler_def ts0_def eval_defs)
  have 2: "h_chat_id second_handler = h_chat_id first_handler"
    "h_thread_id second_handler = h_thread_id first_handler"
    by (simp_all add: second_handler_def first_handler_def)
  have 3: "\<not> turns [''m1'', ''m2'']
          [(''user'', ''m1''), (''user'', ''m2''), (''bot'', ''Bot echo: m1''),
           (''bot'', ''Bot echo: m2'')]"
    by simp
  from 1 2 two_sockets_run 3 two_sockets_sequential show ?thesis by blast
qed

lemma busy_day_runs: "run_steps no_ai busy_provider busy_day two_identities \<noteq> None"
  by code_simp

lemma busy_day_first:
  "map_option (stored 1 \<circ> s_world) (run_steps no_ai busy_provider busy_day two_identities)
   = Some [(''user'', ''m1''), (''manager'', ''one moment''), (''bot'', ''Bot echo: m1''),
           (''user'', ''m2''), (''bot'', ''Bot echo: m2'')]"
  by code_simp

lemma busy_day_other:
  "map_option (stored 2 \<circ> s_world) (run_steps no_ai busy_provider busy_day two_identities)
   = Some [(''user'', ''n1''), (''bot'', ''Bot echo: n1'')]"
  by code_simp

text \<open>
  C9, amended: turns are sequential for every connection whose conversation no other
  running handler writes to (a chat identity served by a single live connection). Under
  every schedule of receive steps, resume steps and manager-send calls that can be run,
  such a handler has consumed a prefix of its frames, and the rows the user endpoint has
  added to its conversation are, for the texts of those frames in the order received,
  the user's message followed by its reply when one is stored (none when a manager has
  claimed the conversation or the provider fails); while the handler is suspended, the
  last row is the user's message it is replying to. Handlers of other identities run
  in between without effect on this order; rows of a manager may fall in between.
\<close>

theorem single_connection_in_order:
  assumes "run_steps cfg api sch s0 = Some s"
    and "i < length (s_tasks s0)"
    and "t_awaiting (s_tasks s0 ! i) = None"
    and "\<forall>j<length (s_tasks s0). j \<noteq> i \<longrightarrow>
           h_thread_id (t_handler (s_tasks s0 ! j)) \<noteq> h_thread_id (t_handler (s_tasks s0 ! i))"
  shows "\<exists>k R. k \<le> length (t_inbox (s_tasks s0 ! i))
           \<and> t_inbox (s_tasks s ! i) = drop k (t_inbox (s_tasks s0 ! i))
           \<and> stored (h_thread_id (t_handler (s_tasks s0 ! i))) (s_world s)
               = stored (h_thread_id (t_handler (s_tasks s0 ! i))) (s_world s0) @ R
           \<and> turns_so_far (t_awaiting (s_tasks s ! i))
                (map text_of (take k (t_inbox (s_tasks s0 ! i)))) (exchange R)"
  using assms(1)
proof (induction sch arbitrary: s rule: rev_induct)
  case Nil
  then have "s = s0" by simp
  with assms(3) show ?case
    by (intro exI[where x = 0] exI[where x = "[]"]) (simp add: exchange_def)
next
  case (snoc x sch)
  let ?tid = "h_thread_id (t_handler (s_tasks s0 ! i))"
  let ?ins = "t_inbox (s_tasks s0 ! i)"
  from snoc.prems obtain s1 where r1: "run_steps cfg api sch s0 = Some s1"
    and d: "do_step cfg api x s1 = Some s"
    by (auto simp: run_steps_snoc split: option.splits)
  from snoc.IH[OF r1] obtain k R where k: "k \<le> length ?ins"
    and ib: "t_inbox (s_tasks s1 ! i) = drop k ?ins"
    and st: "stored ?tid (s_world s1) = stored ?tid (s_world s0) @ R"
    and tf: "turns_so_far (t_awaiting (s_tasks s1 ! i)) (map text_of (take k ?ins)) (exchange R)"
    by blast
  from run_steps_handlers[OF r1] have hs: "map t_handler (s_tasks s1) = map t_handler (s_tasks s0)" .
  have len: "length (s_tasks s1) = length (s_tasks s0)"
    using arg_cong[OF hs, of length] by simp
  have hj: "t_handler (s_tasks s1 ! j) = t_handler (s_tasks s0 ! j)" if "j < length (s_tasks s1)" for j
    using that arg_cong[OF hs, of "\<lambda>xs. xs ! j"] len by simp
  have other: "h_thread_id (t_handler (s_tasks s1 ! j)) \<noteq> ?tid"
    if "j < length (s_tasks s1)" "j \<noteq> i" for j
    using that assms(4) len hj by simp
  have i1: "i < length (s_tasks s1)" using assms(2) len by simp
  show ?case
  proof (cases x)
    case (Receive j)
    from do_step_Receive[OF d[unfolded Receive]]
    obtain f rest sl where j: "j < length (s_tasks s1)"
      and idle: "t_awaiting (s_tasks s1 ! j) = None"
      and fj: "t_inbox (s_tasks s1 ! j) = f # rest"
      and ts: "s_tasks s = (s_tasks s1)[j := (s_tasks s1 ! j)\<lparr>t_inbox := rest, t_awaiting := sl\<rparr>]"
      and sto: "\<And>tid. stored tid (s_world s) = stored tid (s_world s1) @
             (if h_thread_id (t_handler (s_tasks s1 ! j)) = tid then [(''user'', text_of f)]
              else [])"
      and shape: "sl = None \<or> sl = Some (text_of f, snd f)"
      by blast
    show ?thesis
    proof (cases "j = i")
      case False
      with ts i1 have "s_tasks s ! i = s_tasks s1 ! i" by simp
      moreover from sto[of ?tid] other[OF j False]
      have "stored ?tid (s_world s) = stored ?tid (s_world s1)" by simp
      ultimately show ?thesis using k ib st tf
        by (intro exI[where x = k] exI[where x = R]) simp
    next
      case True
      from fj ib True have dr: "drop k ?ins = f # rest" by simp
      note td = take_Suc_drop[OF dr]
      from ts True i1 have ti: "t_inbox (s_tasks s ! i) = rest" "t_awaiting (s_tasks s ! i) = sl"
        by simp_all
      from hj[OF i1] have "h_thread_id (t_handler (s_tasks s1 ! i)) = ?tid" by simp
      with sto[of ?tid] True st
      have st': "stored ?tid (s_world s) = stored ?tid (s_world s0) @ (R @ [(''user'', text_of f)])"
        by simp
      have ex: "exchange (R @ [(''user'', text_of f)]) = exchange R @ [(''user'', text_of f)]"
        by (simp add: exchange_def)
      from tf idle True have tR: "turns (map text_of (take k ?ins)) (exchange R)" by simp
      have "turns_so_far sl (map text_of (take (Suc k) ?ins)) (exchange R @ [(''user'', text_of f)])"
      proof -
        consider "sl = None" | "sl = Some (text_of f, snd f)"
          using shape by blast
        then show ?thesis
        proof cases
          case 1
          with turns_user[OF tR, of "text_of f"] show ?thesis by (simp add: td(3))
        next
          case 2
          with tR show ?thesis by (simp add: td(3))
        qed
      qed
      with td ti st' ex show ?thesis
        by (intro exI[where x = "Suc k"] exI[where x = "R @ [(''user'', text_of f)]"]) simp
    qed
  next
    case (Resume j)
    from do_step_Resume[OF d[unfolded Resume]]
    obtain um stj rows where j: "j < length (s_tasks s1)"
      and sl: "t_awaiting (s_tasks s1 ! j) = Some (um, stj)"
      and ts: "s_tasks s = (s_tasks s1)[j := (s_tasks s1 ! j)\<lparr>t_awaiting := None\<rparr>]"
      and sto: "\<And>tid. stored tid (s_world s) = stored tid (s_world s1) @
             (if h_thread_id (t_handler (s_tasks s1 ! j)) = tid then rows else [])"
      and shape: "rows = [] \<or> (\<exists>r. rows = [(''bot'', r)])"
      by blast
    show ?thesis
    proof (cases "j = i")
      case False
      with ts i1 have "s_tasks s ! i = s_tasks s1 ! i" by simp
      moreover from sto[of ?tid] other[OF j False]
      have "stored ?tid (s_world s) = stored ?tid (s_world s1)" by simp
      ultimately show ?thesis using k ib st tf
        by (intro exI[where x = k] exI[where x = R]) simp
    next
      case True
      from ts True i1 have ti: "t_inbox (s_tasks s ! i) = t_inbox (s_tasks s1 ! i)"
        "t_awaiting (s_tasks s ! i) = None"
        by simp_all
      from hj[OF i1] have "h_thread_id (t_handler (s_tasks s1 ! i)) = ?tid" by simp
      with sto[of ?tid] True st
      have st': "stored ?tid (s_world s) = stored ?tid (s_world s0) @ (R @ rows)"
        by simp
      let ?ts = "map text_of (take k ?ins)"
      let ?E = "exchange R"
      from tf sl True have p: "?ts \<noteq> []" "last ?ts = um" "?E \<noteq> []" "last ?E = (''user'', um)"
        "turns (butlast ?ts) (butlast ?E)"
        by simp_all
      have e1: "butlast ?ts @ [um] = ?ts"
        using append_butlast_last_id[OF p(1)] by (simp only: p(2))
      have e2: "butlast ?E @ [(''user'', um)] = ?E"
        using append_butlast_last_id[OF p(3)] by (simp only: p(4))
      have "turns ?ts (exchange (R @ rows))"
      proof -
        consider "rows = []" | r where "rows = [(''bot'', r)]"
          using shape by blast
        then show ?thesis
        proof cases
          case 1
          from turns_user[OF p(5), of um]
          have "turns (butlast ?ts @ [um]) (butlast ?E @ [(''user'', um)])" .
          then have "turns ?ts ?E" by (simp only: e1 e2)
          with 1 show ?thesis by simp
        next
          case 2
          let ?b = "(''bot'', r)"
          have "?E @ [?b] = (butlast ?E @ [(''user'', um)]) @ [?b]" by (simp only: e2)
          also have "\<dots> = butlast ?E @ [(''user'', um), ?b]" by simp
          finally have r2: "?E @ [?b] = butlast ?E @ [(''user'', um), ?b]" .
          from turns_user_bot[OF p(5), of um r]
          have "turns (butlast ?ts @ [um]) (butlast ?E @ [(''user'', um), ?b])" .
          then have "turns ?ts (butlast ?E @ [(''user'', um), ?b])" by (simp only: e1)
          then have "turns ?ts (?E @ [?b])" by (simp only: r2)
          moreover have "exchange (R @ rows) = ?E @ [?b]" using 2 by (simp add: exchange_def)
          ultimately show ?thesis by simp
        qed
      qed
      with k ib ti st' show ?thesis
        by (intro exI[where x = k] exI[where x = "R @ rows"]) simp
    qed
  next
    case (Post payload now)
    from do_step_Post[OF d[unfolded Post]]
    obtain rows where ts: "s_tasks s = s_tasks s1"
      and sto: "stored ?tid (s_world s) = stored ?tid (s_world s1) @ rows"
      and ex: "exchange rows = []"
      by blast
    from sto st have "stored ?tid (s_world s) = stored ?tid (s_world s0) @ (R @ rows)" by simp
    moreover from ex have "exchange (R @ rows) = exchange R" by simp
    ultimately show ?thesis using k ib tf ts
      by (intro exI[where x = k] exI[where x = "R @ rows"]) simp
  qed
qed

theorem single_connection_in_order_witness:
  "busy_day = [Receive 0, Receive 1, Post one_moment ts1, Resume 0, Resume 1, Receive 0, Resume 0]
   \<and> run_steps no_ai busy_provider busy_day two_identities \<noteq> None
   \<and> h_thread_id (t_handler (s_tasks two_identities ! 1))
       \<noteq> h_thread_id (t_handler (s_tasks two_identities ! 0))
   \<and> map_option (stored 1 \<circ> s_world) (run_steps no_ai busy_provider busy_day two_identities)
       = Some [(''user'', ''m1''), (''manager'', ''one moment''), (''bot'', ''Bot echo: m1''),
               (''user'', ''m2''), (''bot'', ''Bot echo: m2'')]
   \<and> turns [''m1'', ''m2'']
         (exchange [(''user'', ''m1''), (''manager'', ''one moment''), (''bot'', ''Bot echo: m1''),
                    (''user'', ''m2''), (''bot'', ''Bot echo: m2'')])
   \<and> (\<exists>k R. k \<le> length (t_inbox (s_tasks two_identities ! 0))
         \<and> t_inbox (s_tasks (the (run_steps no_ai busy_provider busy_day two_identities)) ! 0)
             = drop k (t_inbox (s_tasks two_identities ! 0))
         \<and> stored (h_thread_id (t_handler (s_tasks two_identities ! 0)))
              (s_world (the (run_steps no_ai busy_provider busy_day two_identities)))
             = stored (h_thread_id (t_handler (s_tasks two_identities ! 0)))
                 (s_world two_identities) @ R
         \<and> turns_so_far
              (t_awaiting (s_tasks (the (run_steps no_ai busy_provider busy_day two_identities)) ! 0))
              (map text_of (take k (t_inbox (s_tasks two_identities ! 0)))) (exchange R))"
proof -
  obtain S where r: "run_steps no_ai busy_provider busy_day two_identities = Some S"
    using busy_day_runs by auto
  have i: "0 < length (s_tasks two_identities)"
    by (simp add: two_identities_def)
  have idle: "t_awaiting (s_tasks two_identities ! 0) = None"
    by (simp add: two_identities_def)
  have d: "h_thread_id (t_handler (s_tasks two_identities ! 1))
       \<noteq> h_thread_id (t_handler (s_tasks two_identities ! 0))"
    by (simp add: two_identities_def other_handler_def first_handler_def)
  have alone: "\<forall>j<length (s_tasks two_identities). j \<noteq> 0 \<longrightarrow>
       h_thread_id (t_handler (s_tasks two_identities ! j))
         \<noteq> h_thread_id (t_handler (s_tasks two_identities ! 0))"
  proof (intro allI impI)
    fix j assume "j < length (s_tasks two_identities)" "j \<noteq> 0"
    then have "j = 1" by (simp add: two_identities_def)
    with d show "h_thread_id (t_handler (s_tasks two_identities ! j))
         \<noteq> h_thread_id (t_handler (s_tasks two_identities ! 0))" by simp
  qed
  have t: "turns [''m1'', ''m2'']
         (exchange [(''user'', ''m1''), (''manager'', ''one moment''), (''bot'', ''Bot echo: m1''),
                    (''user'', ''m2''), (''bot'', ''Bot echo: m2'')])"
    by (simp add: exchange_def)
  from single_connection_in_order[OF r i idle alone]
  have "\<exists>k R. k \<le> length (t_inbox (s_tasks two_identities ! 0))
         \<and> t_inbox (s_tasks (the (run_steps no_ai busy_provider busy_day two_identities)) ! 0)
             = drop k (t_inbox (s_tasks two_identities ! 0))
         \<and> stored (h_thread_id (t_handler (s_tasks two_identities ! 0)))
              (s_world (the (run_steps no_ai busy_provider busy_day two_identities)))
             = stored (h_thread_id (t_handler (s_tasks two_identities ! 0)))
                 (s_world two_identities) @ R
         \<and> turns_so_far
              (t_awaiting (s_tasks (the (run_steps no_ai busy_provider busy_day two_identities)) ! 0))
              (map text_of (take k (t_inbox (s_tasks two_identities ! 0)))) (exchange R)"
    by (simp only: r option.sel)
  with busy_day_def busy_day_runs busy_day_first d t show ?thesis by blast
qed

end
